theory Spec2Isabelle
  imports Complex_Main "HOL-Library.Sublist"
begin

section \<open>Data model of the Tomoji frontend (lib/api.ts)\<close>

text \<open>
  A JavaScript string is modelled as a \<open>string\<close>, the list of the bytes of its UTF-8
  encoding. The interfaces of \<^verbatim>\<open>lib/api.ts\<close> become records with the source's field
  names.
\<close>

record Emoji =
  emoji :: string
  codepoint :: string
  name :: string

record EmojiCategory =
  cat_id :: string
  cat_name :: string
  emojis :: "Emoji list"

record CapturedEmoji =
  ce_emoji :: string
  ce_codepoint :: string
  image_data :: string
  custom :: bool

text \<open>
  \<^verbatim>\<open>Settings\<close>: the padding is a JavaScript number, here a rational (the values the
  application computes are \<open>n / 100\<close>).
\<close>

record Settings =
  padding :: rat
  keep_background :: bool
  keep_clothes :: bool
  keep_accessories :: bool

section \<open>App.tsx: advancing to the next glyph (handleNext)\<close>

text \<open>
  \<^verbatim>\<open>Array.prototype.findIndex\<close>: the index of the first element satisfying the
  predicate, or \<open>-1\<close>.
\<close>

fun findIndex_from :: "('a \<Rightarrow> bool) \<Rightarrow> 'a list \<Rightarrow> int \<Rightarrow> int" where
  "findIndex_from P [] k = -1"
| "findIndex_from P (x # xs) k = (if P x then k else findIndex_from P xs (k + 1))"

definition findIndex :: "('a \<Rightarrow> bool) \<Rightarrow> 'a list \<Rightarrow> int" where
  "findIndex P xs = findIndex_from P xs 0"

text \<open>
  The JavaScript remainder operator \<^verbatim>\<open>%\<close> on integers: the result takes the sign of the
  dividend (truncated division).
\<close>

definition js_rem :: "int \<Rightarrow> int \<Rightarrow> int" where
  "js_rem a b = sgn a * (\<bar>a\<bar> mod \<bar>b\<bar>)"

text \<open>
  The loop \<^verbatim>\<open>for (let i = 1; i <= emojis.length; i++)\<close> of \<open>handleNext\<close>. The result
  is \<open>Some e\<close> when the loop leaves through \<^verbatim>\<open>setSelectedEmoji(nextEmoji); return\<close>
  and \<open>None\<close> when it runs to its end. The index is always in range when the loop body
  runs (see \<open>next_index_in_range\<close>), so the read \<^verbatim>\<open>emojis[nextIndex]\<close> is a list access.
\<close>

function handleNext_loop :: "Emoji list \<Rightarrow> string set \<Rightarrow> int \<Rightarrow> nat \<Rightarrow> Emoji option" where
  "handleNext_loop es captured currentIndex i =
     (if i \<le> length es then
        (let nextIndex = js_rem (currentIndex + int i) (int (length es));
             nextEmoji = es ! nat nextIndex
         in if emoji nextEmoji \<notin> captured then Some nextEmoji
            else handleNext_loop es captured currentIndex (i + 1))
      else None)"
  by pat_completeness auto
termination
  by (relation "measure (\<lambda>(es, captured, currentIndex, i). Suc (length es) - i)") auto

declare handleNext_loop.simps [simp del]

text \<open>
  The part of the App component's state that the handlers below read and write
  (the signals created in \<open>App\<close>).
\<close>

record AppState =
  selectedEmoji :: "Emoji option"
  isCustomCapture :: bool
  showClearConfirm :: bool
  clearing :: bool
  fontUrl :: "string option"
  fontLoaded :: bool
  fontFamilyId :: "string option"
  localLastGeneration :: "string option"
  settings :: Settings
  settingsLoaded :: bool

text \<open>
  \<open>handleNext\<close>, after the gallery has been refetched: \<open>es\<close> is \<open>allEmojis()\<close> and
  \<open>captured\<close> is \<open>capturedSet()\<close>. With no selected emoji the handler returns
  at once and leaves the state as it is.
\<close>

definition handleNext :: "Emoji list \<Rightarrow> string set \<Rightarrow> AppState \<Rightarrow> AppState" where
  "handleNext es captured st =
     (case selectedEmoji st of
        None \<Rightarrow> st
      | Some currentEmoji \<Rightarrow>
          (let currentIndex = findIndex (\<lambda>e. emoji e = emoji currentEmoji) es
           in case handleNext_loop es captured currentIndex 1 of
                Some nextEmoji \<Rightarrow> st\<lparr>selectedEmoji := Some nextEmoji\<rparr>
              | None \<Rightarrow> st\<lparr>selectedEmoji := None\<rparr>))"

text \<open>The capture modal is mounted under \<^verbatim>\<open><Show when={selectedEmoji()}>\<close>.\<close>

definition modal_open :: "AppState \<Rightarrow> bool" where
  "modal_open st = (selectedEmoji st \<noteq> None)"

text \<open>\<open>allEmojis\<close>: \<^verbatim>\<open>categories.flatMap((cat) => cat.emojis)\<close>.\<close>

definition allEmojis :: "EmojiCategory list \<Rightarrow> Emoji list" where
  "allEmojis categories = concat (map emojis categories)"

text \<open>\<open>hasUncapturedEmoji\<close>: \<^verbatim>\<open>emojis.some((e) => !captured.has(e.emoji))\<close>.\<close>

definition hasUncapturedEmoji :: "Emoji list \<Rightarrow> string set \<Rightarrow> bool" where
  "hasUncapturedEmoji es captured = list_ex (\<lambda>e. emoji e \<notin> captured) es"

text \<open>
  The order in which \<open>handleNext\<close> is meant to look at the emojis: the ones after the
  current index up to the end of the list, then the list from its start up to and
  including the current index.
\<close>

definition scan_order :: "Emoji list \<Rightarrow> int \<Rightarrow> Emoji list" where
  "scan_order es currentIndex = drop (nat (currentIndex + 1)) es @ take (nat (currentIndex + 1)) es"

section \<open>Gallery.tsx: firstUncapturedEmoji\<close>

fun firstUncaptured_in :: "Emoji list \<Rightarrow> string set \<Rightarrow> Emoji option" where
  "firstUncaptured_in [] captured = None"
| "firstUncaptured_in (e # es) captured =
     (if emoji e \<notin> captured then Some e else firstUncaptured_in es captured)"

fun firstUncapturedEmoji :: "EmojiCategory list \<Rightarrow> string set \<Rightarrow> Emoji option" where
  "firstUncapturedEmoji [] captured = None"
| "firstUncapturedEmoji (category # categories) captured =
     (case firstUncaptured_in (emojis category) captured of
        Some e \<Rightarrow> Some e
      | None \<Rightarrow> firstUncapturedEmoji categories captured)"


section \<open>Calls to the backend\<close>

text \<open>
  The functions of \<^verbatim>\<open>lib/api.ts\<close> that a handler can call, with their arguments. A
  handler of the model returns the list of calls it made, in order.
\<close>

record CaptureParams =
  image :: string
  cp_padding :: rat
  cp_keep_background :: bool
  cp_keep_clothes :: bool
  cp_keep_accessories :: bool

datatype api_call =
    PreviewCapture string string CaptureParams
  | SaveCapture string string string
  | DeleteCapture string string
  | ClearSession string
  | ExportFont string string

text \<open>
  A rejected promise carries an error object; the handlers read its \<^verbatim>\<open>message\<close> only, and
  \<^verbatim>\<open>err.message || fallback\<close> takes the fallback when the message is empty or missing.
  The message is a string, empty when missing.
\<close>

definition message_or :: "string \<Rightarrow> string \<Rightarrow> string" where
  "message_or msg fallback = (if msg = [] then fallback else msg)"

section \<open>ExportView.tsx\<close>

text \<open>
  A prop of type \<^verbatim>\<open>string | null\<close> is a \<open>string option\<close>; JavaScript's \<^verbatim>\<open>!x\<close> holds for
  \<^verbatim>\<open>null\<close> and for the empty string.
\<close>

text \<open>
  \<^verbatim>\<open>new Date(s).getTime()\<close> is a function of the platform and a parameter \<open>getTime\<close> of
  the model: the time in milliseconds, or \<open>None\<close> for \<^verbatim>\<open>NaN\<close> (an invalid date).
  A comparison with \<^verbatim>\<open>NaN\<close> is false.
\<close>

definition js_gt :: "int option \<Rightarrow> int option \<Rightarrow> bool" where
  "js_gt a b = (case (a, b) of (Some x, Some y) \<Rightarrow> x > y | _ \<Rightarrow> False)"

record ButtonState =
  btn_text :: string
  disabled :: bool

definition buttonState :: "(string \<Rightarrow> int option) \<Rightarrow> string option \<Rightarrow> string option \<Rightarrow> ButtonState" where
  "buttonState getTime lastGeneration lastCaptureEdit =
     (case lastGeneration of
        None \<Rightarrow> \<lparr>btn_text = ''Generate Font'', disabled = False\<rparr>
      | Some lastGen \<Rightarrow>
          if lastGen = [] then \<lparr>btn_text = ''Generate Font'', disabled = False\<rparr>
          else
            (case lastCaptureEdit of
               None \<Rightarrow> \<lparr>btn_text = ''Regenerate Font'', disabled = True\<rparr>
             | Some lastEdit \<Rightarrow>
                 if lastEdit = [] then \<lparr>btn_text = ''Regenerate Font'', disabled = True\<rparr>
                 else
                   (let genTime = getTime lastGen;
                        editTime = getTime lastEdit
                    in if js_gt editTime genTime then \<lparr>btn_text = ''Regenerate Font'', disabled = False\<rparr>
                       else \<lparr>btn_text = ''Regenerate Font'', disabled = True\<rparr>)))"

text \<open>
  The view reports the font stale when it offers regeneration and the button is enabled,
  up to date when regeneration is disabled (the "Up to date" note is shown under
  \<^verbatim>\<open>buttonState().disabled\<close>), and it offers the first generation with "Generate Font".
\<close>

definition reports_stale :: "ButtonState \<Rightarrow> bool" where
  "reports_stale b = (btn_text b = ''Regenerate Font'' \<and> \<not> disabled b)"

definition reports_up_to_date :: "ButtonState \<Rightarrow> bool" where
  "reports_up_to_date b = (btn_text b = ''Regenerate Font'' \<and> disabled b)"

definition offers_initial_generation :: "ButtonState \<Rightarrow> bool" where
  "offers_initial_generation b = (btn_text b = ''Generate Font'' \<and> \<not> disabled b)"

text \<open>The props and signals of ExportView that \<open>handleExport\<close> reads.\<close>

record ExportProps =
  sessionId :: string
  capturedCount :: nat

record ExportLocal =
  fontName :: string
  isExporting :: bool
  export_error :: "string option"

record ExportResult =
  success :: bool
  captured_count :: nat
  total_emojis :: nat
  font_url :: string
  er_last_generation :: string

definition getFontUrl :: "string \<Rightarrow> string" where
  "getFontUrl sid = ''/api/'' @ sid @ ''/font.woff2''"

text \<open>
  \<open>loadFont\<close> sets a fresh font family id, then loads the font: \<open>load_error\<close> is
  \<open>None\<close> when \<^verbatim>\<open>font.load()\<close> resolves and the message of the error when it rejects.
  \<open>now\<close> is the text of \<^verbatim>\<open>Date.now()\<close>. The result also says which error, if any,
  \<open>loadFont\<close> throws.
\<close>

definition loadFont :: "string \<Rightarrow> string option \<Rightarrow> AppState \<Rightarrow> AppState \<times> string option" where
  "loadFont now load_error st =
     (let st1 = st\<lparr>fontFamilyId := Some (''tomoji-preview-'' @ now)\<rparr>
      in case load_error of
           Some msg \<Rightarrow> (st1, Some msg)
         | None \<Rightarrow> (st1\<lparr>fontLoaded := True\<rparr>, None))"

text \<open>
  \<open>handleExport\<close>. \<open>export_result\<close> is what \<^verbatim>\<open>exportFont\<close> would answer (\<open>Inl\<close> the
  message of the error it throws). The handler writes the signals of ExportView and,
  through the setters in its props, those of App.
\<close>

definition handleExport ::
  "(string + ExportResult) \<Rightarrow> string \<Rightarrow> string option \<Rightarrow> ExportProps \<Rightarrow> AppState \<times> ExportLocal
     \<Rightarrow> (AppState \<times> ExportLocal) \<times> api_call list" where
  "handleExport export_result now load_error props s =
     (case s of (app, loc) \<Rightarrow>
        if capturedCount props = 0 then
          ((app, loc\<lparr>export_error :=
              Some ''No emojis captured yet. Go to Gallery and capture some emojis first!''\<rparr>), [])
        else if sessionId props = [] then
          ((app, loc\<lparr>export_error := Some ''Session not found. Please refresh the page.''\<rparr>), [])
        else
          (let loc1 = loc\<lparr>isExporting := True, export_error := None\<rparr>;
               app1 = app\<lparr>fontLoaded := False\<rparr>;
               calls = [ExportFont (sessionId props) (fontName loc)]
           in case export_result of
                Inl msg \<Rightarrow>
                  ((app1, loc1\<lparr>export_error := Some (message_or msg ''Export failed''),
                      isExporting := False\<rparr>), calls)
              | Inr result \<Rightarrow>
                  (let app2 = app1\<lparr>localLastGeneration := Some (er_last_generation result),
                                   fontUrl := Some (getFontUrl (sessionId props))\<rparr>
                   in case loadFont now load_error app2 of
                        (app3, Some msg) \<Rightarrow>
                          ((app3, loc1\<lparr>export_error := Some (message_or msg ''Export failed''),
                              isExporting := False\<rparr>), calls)
                      | (app3, None) \<Rightarrow> ((app3, loc1\<lparr>isExporting := False\<rparr>), calls))))"

definition is_export :: "api_call \<Rightarrow> bool" where
  "is_export c = (case c of ExportFont sid nm \<Rightarrow> True | _ \<Rightarrow> False)"

section \<open>App.tsx: handleClearAll\<close>

text \<open>
  \<open>clear_result\<close> is the outcome of \<^verbatim>\<open>clearSession\<close>: \<open>Inr n\<close> with the number of
  deleted captures when it resolves, \<open>Inl msg\<close> when it throws. The outcome of the
  handler holds the new state, the calls made, whether \<^verbatim>\<open>refetchGallery()\<close> was called,
  and the error that \<open>handleClearAll\<close> lets through (it has \<^verbatim>\<open>finally\<close> and no
  \<^verbatim>\<open>catch\<close>).
\<close>

record ClearOutcome =
  co_state :: AppState
  co_calls :: "api_call list"
  co_refetched :: bool
  co_thrown :: "string option"

definition handleClearAll :: "string \<Rightarrow> (string + nat) \<Rightarrow> AppState \<Rightarrow> ClearOutcome" where
  "handleClearAll sid clear_result st =
     (let st1 = st\<lparr>clearing := True\<rparr>
      in case clear_result of
           Inr deleted_count \<Rightarrow>
             \<lparr>co_state = (st1\<lparr>fontUrl := None, fontLoaded := False, fontFamilyId := None,
                                 localLastGeneration := None\<rparr>)\<lparr>clearing := False, showClearConfirm := False\<rparr>,
              co_calls = [ClearSession sid], co_refetched = True, co_thrown = None\<rparr>
         | Inl msg \<Rightarrow>
             \<lparr>co_state = st1\<lparr>clearing := False, showClearConfirm := False\<rparr>,
              co_calls = [ClearSession sid], co_refetched = False, co_thrown = Some msg\<rparr>)"

section \<open>App.tsx: settings\<close>

definition defaultSettings :: Settings where
  "defaultSettings = \<lparr>padding = 0, keep_background = False, keep_clothes = False, keep_accessories = True\<rparr>"

text \<open>The initial values of the signals of App.\<close>

definition app_init :: AppState where
  "app_init = \<lparr>selectedEmoji = None, isCustomCapture = False, showClearConfirm = False,
     clearing = False, fontUrl = None, fontLoaded = False, fontFamilyId = None,
     localLastGeneration = None, settings = defaultSettings, settingsLoaded = False\<rparr>"

text \<open>
  \<open>loadSettings\<close>: \<open>loaded\<close> is the outcome of \<^verbatim>\<open>getSettings(sid)\<close>, \<open>Inr\<close> the settings
  the backend sent, \<open>Inl\<close> the error. The value that arrives is stored as it is.
\<close>

definition loadSettings :: "(string + Settings) \<Rightarrow> AppState \<Rightarrow> AppState" where
  "loadSettings loaded st =
     (case loaded of
        Inr loadedSettings \<Rightarrow> st\<lparr>settings := loadedSettings, settingsLoaded := True\<rparr>
      | Inl err \<Rightarrow> st\<lparr>settingsLoaded := True\<rparr>)"


section \<open>CaptureModal.tsx: settings controls\<close>

text \<open>
  Each handler builds the new settings from \<^verbatim>\<open>props.settings\<close> and hands them to
  \<^verbatim>\<open>props.onSettingsChange\<close>; the functions below return that argument.
\<close>

definition handlePaddingChange :: "rat \<Rightarrow> Settings \<Rightarrow> Settings" where
  "handlePaddingChange v props_settings = props_settings\<lparr>padding := v\<rparr>"

definition handleKeepBackgroundChange :: "bool \<Rightarrow> Settings \<Rightarrow> Settings" where
  "handleKeepBackgroundChange v props_settings = props_settings\<lparr>keep_background := v\<rparr>"

definition handleKeepClothesChange :: "bool \<Rightarrow> Settings \<Rightarrow> Settings" where
  "handleKeepClothesChange v props_settings = props_settings\<lparr>keep_clothes := v\<rparr>"

definition handleKeepAccessoriesChange :: "bool \<Rightarrow> Settings \<Rightarrow> Settings" where
  "handleKeepAccessoriesChange v props_settings = props_settings\<lparr>keep_accessories := v\<rparr>"

text \<open>
  The padding control is \<^verbatim>\<open><input type="range" min="0" max="100">\<close> with
  \<^verbatim>\<open>onInput\<close> calling \<^verbatim>\<open>handlePaddingChange(parseInt(value) / 100)\<close>. The value of
  such a control is the text of an integer \<open>n\<close> between its minimum and its maximum;
  \<open>slider_onInput n\<close> is the handler run on it.
\<close>

definition slider_onInput :: "nat \<Rightarrow> Settings \<Rightarrow> Settings" where
  "slider_onInput n props_settings = handlePaddingChange (rat_of_nat n / 100) props_settings"





section \<open>CaptureModal.tsx: custom glyph validation\<close>

text \<open>
  \<open>extractFirstEmoji\<close> uses two functions of the platform, parameters of the model:
  \<open>segment\<close>, the grapheme segmentation of \<^verbatim>\<open>Intl.Segmenter\<close> (the list of the
  segments of a string, in order), and \<open>test\<close>, the test of a string against
  \<^verbatim>\<open>/\p{Extended_Pictographic}/u\<close> (the string contains a scalar value with that
  property).
\<close>

definition extractFirstEmoji :: "(string \<Rightarrow> string list) \<Rightarrow> (string \<Rightarrow> bool) \<Rightarrow> string \<Rightarrow> string" where
  "extractFirstEmoji segment test str =
     (if str = [] then []
      else case find test (segment str) of Some seg \<Rightarrow> seg | None \<Rightarrow> [])"

definition isValidEmoji :: "(string \<Rightarrow> string list) \<Rightarrow> (string \<Rightarrow> bool) \<Rightarrow> string \<Rightarrow> bool" where
  "isValidEmoji segment test str = (str \<noteq> [] \<and> str = extractFirstEmoji segment test str)"

section \<open>CaptureModal.tsx: capture, preview and accept\<close>

datatype CaptureState = Webcam | Preview | Processing

record ModalProps =
  m_sessionId :: string
  m_emoji :: Emoji
  existingCapture :: "CapturedEmoji option"
  isCustom :: bool
  m_settings :: Settings
  has_onNext :: bool

record ModalState =
  state :: CaptureState
  processedImage :: "string option"
  capture_error :: "string option"
  capturedFrame :: "string option"
  viewingExisting :: bool
  customEmojiInput :: string
  countdown :: "nat option"

text \<open>The callbacks of the props that a handler invokes.\<close>

datatype callback = OnComplete | OnNext | OnClose | OnSettingsChange Settings

text \<open>
  What the world answers while a handler runs: \<open>frame\<close> is the captured video frame
  (\<open>None\<close> when there is no video element), \<open>file_read\<close> the data URL of the uploaded
  file (\<open>None\<close> when reading fails), \<open>preview_result\<close> the answer of
  \<^verbatim>\<open>previewCapture\<close> (\<open>Inr\<close> the preview image, \<open>Inl\<close> the error message),
  \<open>save_error\<close> and \<open>delete_error\<close> the error of \<^verbatim>\<open>saveCapture\<close> and
  \<^verbatim>\<open>deleteCapture\<close>, if any.
\<close>

record ModalEnv =
  frame :: "string option"
  file_read :: "string option"
  preview_result :: "string + string"
  save_error :: "string option"
  delete_error :: "string option"

record ModalOutcome =
  mo_state :: ModalState
  mo_calls :: "api_call list"
  mo_callbacks :: "callback list"

definition modal_init :: "ModalProps \<Rightarrow> ModalState" where
  "modal_init props =
     \<lparr>state = (if existingCapture props = None then Webcam else Preview),
      processedImage = map_option image_data (existingCapture props),
      capture_error = None, capturedFrame = None,
      viewingExisting = (existingCapture props \<noteq> None),
      customEmojiInput = emoji (m_emoji props), countdown = None\<rparr>"

definition currentEmoji :: "ModalProps \<Rightarrow> ModalState \<Rightarrow> string" where
  "currentEmoji props st =
     (if isCustom props \<and> existingCapture props = None then customEmojiInput st
      else emoji (m_emoji props))"

definition captureDisabled :: "(string \<Rightarrow> string list) \<Rightarrow> (string \<Rightarrow> bool) \<Rightarrow> ModalProps \<Rightarrow> ModalState \<Rightarrow> bool" where
  "captureDisabled segment test props st =
     (isCustom props \<and> existingCapture props = None \<and> \<not> isValidEmoji segment test (customEmojiInput st))"

definition preview_params :: "string \<Rightarrow> ModalProps \<Rightarrow> CaptureParams" where
  "preview_params img props =
     \<lparr>image = img, cp_padding = padding (m_settings props),
      cp_keep_background = keep_background (m_settings props),
      cp_keep_clothes = keep_clothes (m_settings props),
      cp_keep_accessories = keep_accessories (m_settings props)\<rparr>"

text \<open>
  The part shared by \<open>handleCapture\<close> and \<open>handleUpload\<close> once they have an image:
  the call of \<^verbatim>\<open>previewCapture\<close> with its \<^verbatim>\<open>then\<close> and \<^verbatim>\<open>catch\<close>.
\<close>

definition preview_then :: "ModalEnv \<Rightarrow> ModalProps \<Rightarrow> string \<Rightarrow> ModalState \<Rightarrow> ModalOutcome" where
  "preview_then env props img st =
     \<lparr>mo_state =
        (case preview_result env of
           Inr preview_image \<Rightarrow> st\<lparr>processedImage := Some preview_image, state := Preview\<rparr>
         | Inl msg \<Rightarrow> st\<lparr>capture_error := Some (message_or msg ''Face detection failed''),
                         capturedFrame := None, state := Webcam\<rparr>),
      mo_calls = [PreviewCapture (m_sessionId props) (currentEmoji props st) (preview_params img props)],
      mo_callbacks = []\<rparr>"

definition handleCapture :: "ModalEnv \<Rightarrow> ModalProps \<Rightarrow> ModalState \<Rightarrow> ModalOutcome" where
  "handleCapture env props st =
     (case frame env of
        None \<Rightarrow> \<lparr>mo_state = st, mo_calls = [], mo_callbacks = []\<rparr>
      | Some f \<Rightarrow>
          preview_then env props f
            (st\<lparr>capturedFrame := Some f, state := Processing, capture_error := None\<rparr>))"

definition handleUpload :: "ModalEnv \<Rightarrow> ModalProps \<Rightarrow> ModalState \<Rightarrow> ModalOutcome" where
  "handleUpload env props st =
     (let st1 = st\<lparr>capture_error := None\<rparr>
      in case file_read env of
           Some base64 \<Rightarrow>
             preview_then env props base64 (st1\<lparr>capturedFrame := Some base64, state := Processing\<rparr>)
         | None \<Rightarrow>
             \<lparr>mo_state = st1\<lparr>capture_error := Some ''Failed to read file'', capturedFrame := None,
                               state := Webcam\<rparr>,
              mo_calls = [], mo_callbacks = []\<rparr>)"

text \<open>
  \<^verbatim>\<open>String.prototype.trim\<close> removes white space and line terminators at both ends.
  These are the code points U+0009 to U+000D, U+0020, U+00A0, U+1680, U+2000 to U+200A,
  U+2028, U+2029, U+202F, U+205F, U+3000 and U+FEFF, here in their UTF-8 encoding.
\<close>

definition js_white_space :: "string list" where
  "js_white_space =
     [[CHR 0x09], [CHR 0x0A], [CHR 0x0B], [CHR 0x0C], [CHR 0x0D], [CHR 0x20],
      [CHR 0xC2, CHR 0xA0],
      [CHR 0xE1, CHR 0x9A, CHR 0x80],
      [CHR 0xE2, CHR 0x80, CHR 0x80], [CHR 0xE2, CHR 0x80, CHR 0x81], [CHR 0xE2, CHR 0x80, CHR 0x82],
      [CHR 0xE2, CHR 0x80, CHR 0x83], [CHR 0xE2, CHR 0x80, CHR 0x84], [CHR 0xE2, CHR 0x80, CHR 0x85],
      [CHR 0xE2, CHR 0x80, CHR 0x86], [CHR 0xE2, CHR 0x80, CHR 0x87], [CHR 0xE2, CHR 0x80, CHR 0x88],
      [CHR 0xE2, CHR 0x80, CHR 0x89], [CHR 0xE2, CHR 0x80, CHR 0x8A],
      [CHR 0xE2, CHR 0x80, CHR 0xA8], [CHR 0xE2, CHR 0x80, CHR 0xA9], [CHR 0xE2, CHR 0x80, CHR 0xAF],
      [CHR 0xE2, CHR 0x81, CHR 0x9F],
      [CHR 0xE3, CHR 0x80, CHR 0x80],
      [CHR 0xEF, CHR 0xBB, CHR 0xBF]]"

text \<open>
  \<open>strip_start ws s\<close> removes from the start of \<open>s\<close> every leading occurrence of a
  word of \<open>ws\<close>. Trimming the end is trimming the start of the reversed string of the
  reversed encodings.
\<close>

function strip_start :: "string list \<Rightarrow> string \<Rightarrow> string" where
  "strip_start ws s =
     (case find (\<lambda>w. w \<noteq> [] \<and> prefix w s) ws of
        Some w \<Rightarrow> strip_start ws (drop (length w) s)
      | None \<Rightarrow> s)"
  by pat_completeness auto
termination
proof (relation "measure (\<lambda>(ws, s). length s)")
  show "wf (measure (\<lambda>(ws, s). length s))" by simp
next
  fix ws :: "string list" and s w :: string
  assume "find (\<lambda>w. w \<noteq> [] \<and> prefix w s) ws = Some w"
  then have "w \<noteq> []" "prefix w s" by (auto simp: find_Some_iff)
  then have "s \<noteq> []" "0 < length w" by auto
  then show "((ws, drop (length w) s), (ws, s)) \<in> measure (\<lambda>(ws, s). length s)" by simp
qed

declare strip_start.simps [simp del]

definition js_trim :: "string \<Rightarrow> string" where
  "js_trim s = rev (strip_start (map rev js_white_space) (rev (strip_start js_white_space s)))"

text \<open>
  \<open>handleAccept\<close> and \<open>handleAcceptAndNext\<close> differ in the callback they invoke after
  the save: \<open>after\<close> is \<open>[OnComplete]\<close> for the first and \<open>[OnNext]\<close>, when the prop
  is there, for the second.
\<close>

definition accept_with :: "callback list \<Rightarrow> ModalEnv \<Rightarrow> ModalProps \<Rightarrow> ModalState \<Rightarrow> ModalOutcome" where
  "accept_with after env props st =
     (case processedImage st of
        None \<Rightarrow> \<lparr>mo_state = st, mo_calls = [], mo_callbacks = []\<rparr>
      | Some img \<Rightarrow>
          if img = [] then \<lparr>mo_state = st, mo_calls = [], mo_callbacks = []\<rparr>
          else
            (let em = currentEmoji props st
             in if js_trim em = [] then
                  \<lparr>mo_state = st\<lparr>capture_error := Some ''Please enter an emoji''\<rparr>,
                   mo_calls = [], mo_callbacks = []\<rparr>
                else
                  (case save_error env of
                     None \<Rightarrow> \<lparr>mo_state = st, mo_calls = [SaveCapture (m_sessionId props) em img],
                               mo_callbacks = after\<rparr>
                   | Some msg \<Rightarrow>
                       \<lparr>mo_state = st\<lparr>capture_error := Some (message_or msg ''Failed to save capture'')\<rparr>,
                        mo_calls = [SaveCapture (m_sessionId props) em img], mo_callbacks = []\<rparr>)))"

definition handleAccept :: "ModalEnv \<Rightarrow> ModalProps \<Rightarrow> ModalState \<Rightarrow> ModalOutcome" where
  "handleAccept env props st = accept_with [OnComplete] env props st"

definition handleAcceptAndNext :: "ModalEnv \<Rightarrow> ModalProps \<Rightarrow> ModalState \<Rightarrow> ModalOutcome" where
  "handleAcceptAndNext env props st =
     accept_with (if has_onNext props then [OnNext] else []) env props st"

definition handleDelete :: "ModalEnv \<Rightarrow> ModalProps \<Rightarrow> ModalState \<Rightarrow> ModalOutcome" where
  "handleDelete env props st =
     (case delete_error env of
        None \<Rightarrow> \<lparr>mo_state = st, mo_calls = [DeleteCapture (m_sessionId props) (currentEmoji props st)],
                  mo_callbacks = [OnComplete]\<rparr>
      | Some msg \<Rightarrow>
          \<lparr>mo_state = st\<lparr>capture_error := Some ''Failed to delete capture''\<rparr>,
           mo_calls = [DeleteCapture (m_sessionId props) (currentEmoji props st)], mo_callbacks = []\<rparr>)"

definition handleRetake :: "ModalState \<Rightarrow> ModalOutcome" where
  "handleRetake st =
     \<lparr>mo_state = st\<lparr>processedImage := None, capturedFrame := None, state := Webcam,
                     capture_error := None, viewingExisting := False\<rparr>,
      mo_calls = [], mo_callbacks = []\<rparr>"

definition handleEmojiInput :: "(string \<Rightarrow> string list) \<Rightarrow> (string \<Rightarrow> bool) \<Rightarrow> string \<Rightarrow> ModalState \<Rightarrow> ModalOutcome" where
  "handleEmojiInput segment test v st =
     \<lparr>mo_state = st\<lparr>customEmojiInput := extractFirstEmoji segment test v\<rparr>,
      mo_calls = [], mo_callbacks = []\<rparr>"

text \<open>
  \<^verbatim>\<open>error()?.match(/camera|webcam/i)\<close>: the error message contains "camera" or "webcam",
  whatever the case of the letters.
\<close>

definition to_lower :: "char \<Rightarrow> char" where
  "to_lower c =
     (case map_of (zip ''ABCDEFGHIJKLMNOPQRSTUVWXYZ'' ''abcdefghijklmnopqrstuvwxyz'') c of
        Some l \<Rightarrow> l
      | None \<Rightarrow> c)"

definition mentions_camera :: "string option \<Rightarrow> bool" where
  "mentions_camera err =
     (case err of
        None \<Rightarrow> False
      | Some msg \<Rightarrow> sublist ''camera'' (map to_lower msg) \<or> sublist ''webcam'' (map to_lower msg))"

text \<open>
  \<open>handleKeyDown\<close>: \<open>in_form\<close> says that the target of the event is an input or a
  text area.
\<close>

definition handleKeyDown :: "ModalEnv \<Rightarrow> ModalProps \<Rightarrow> string \<Rightarrow> bool \<Rightarrow> ModalState \<Rightarrow> ModalOutcome" where
  "handleKeyDown env props key in_form st =
     (if in_form then \<lparr>mo_state = st, mo_calls = [], mo_callbacks = []\<rparr>
      else if key = ''Enter'' \<or> key = '' '' then
        (if state st = Webcam \<and> \<not> mentions_camera (capture_error st) then handleCapture env props st
         else if state st = Preview \<and> \<not> viewingExisting st then
           (if has_onNext props then handleAcceptAndNext env props st else handleAccept env props st)
         else \<lparr>mo_state = st, mo_calls = [], mo_callbacks = []\<rparr>)
      else if key = ''Delete'' \<or> key = ''Backspace'' then
        (if state st = Preview \<and> viewingExisting st then handleDelete env props st
         else \<lparr>mo_state = st, mo_calls = [], mo_callbacks = []\<rparr>)
      else \<lparr>mo_state = st, mo_calls = [], mo_callbacks = []\<rparr>)"

text \<open>
  The things a user can do in the modal, each with the handler that the component binds
  to it. \<open>CountdownElapsed\<close> is the last tick of the delayed capture, which calls
  \<open>handleCapture\<close>; \<open>FileSelected\<close> is \<open>handleFileSelect\<close> with a file.
\<close>

datatype modal_event =
    ClickCapture
  | CountdownElapsed
  | FileSelected
  | ClickRetake
  | ClickAccept
  | ClickNext
  | ClickDelete
  | ClickClose
  | KeyDown string bool
  | EmojiTyped string
  | SliderMoved nat
  | CheckboxBackground bool
  | CheckboxClothes bool
  | CheckboxAccessories bool

fun modal_step ::
  "(string \<Rightarrow> string list) \<Rightarrow> (string \<Rightarrow> bool) \<Rightarrow> ModalEnv \<Rightarrow> ModalProps \<Rightarrow> modal_event \<Rightarrow> ModalState
     \<Rightarrow> ModalOutcome" where
  "modal_step segment test env props ClickCapture st = handleCapture env props st"
| "modal_step segment test env props CountdownElapsed st = handleCapture env props st"
| "modal_step segment test env props FileSelected st = handleUpload env props st"
| "modal_step segment test env props ClickRetake st = handleRetake st"
| "modal_step segment test env props ClickAccept st = handleAccept env props st"
| "modal_step segment test env props ClickNext st = handleAcceptAndNext env props st"
| "modal_step segment test env props ClickDelete st = handleDelete env props st"
| "modal_step segment test env props ClickClose st =
     \<lparr>mo_state = st, mo_calls = [], mo_callbacks = [OnClose]\<rparr>"
| "modal_step segment test env props (KeyDown key in_form) st = handleKeyDown env props key in_form st"
| "modal_step segment test env props (EmojiTyped v) st = handleEmojiInput segment test v st"
| "modal_step segment test env props (SliderMoved n) st =
     \<lparr>mo_state = st, mo_calls = [], mo_callbacks = [OnSettingsChange (slider_onInput n (m_settings props))]\<rparr>"
| "modal_step segment test env props (CheckboxBackground b) st =
     \<lparr>mo_state = st, mo_calls = [],
      mo_callbacks = [OnSettingsChange (handleKeepBackgroundChange b (m_settings props))]\<rparr>"
| "modal_step segment test env props (CheckboxClothes b) st =
     \<lparr>mo_state = st, mo_calls = [],
      mo_callbacks = [OnSettingsChange (handleKeepClothesChange b (m_settings props))]\<rparr>"
| "modal_step segment test env props (CheckboxAccessories b) st =
     \<lparr>mo_state = st, mo_calls = [],
      mo_callbacks = [OnSettingsChange (handleKeepAccessoriesChange b (m_settings props))]\<rparr>"

definition is_preview :: "api_call \<Rightarrow> bool" where
  "is_preview c = (case c of PreviewCapture sid em ps \<Rightarrow> True | _ \<Rightarrow> False)"

definition is_save :: "api_call \<Rightarrow> bool" where
  "is_save c = (case c of SaveCapture sid em img \<Rightarrow> True | _ \<Rightarrow> False)"

text \<open>
  The user accepts a preview with the Accept or the Next button, or with Enter or space
  while a new preview is shown.
\<close>

definition accepts_preview :: "modal_event \<Rightarrow> ModalState \<Rightarrow> bool" where
  "accepts_preview ev st =
     (case ev of
        ClickAccept \<Rightarrow> True
      | ClickNext \<Rightarrow> True
      | KeyDown key in_form \<Rightarrow>
          \<not> in_form \<and> (key = ''Enter'' \<or> key = '' '') \<and> state st = Preview \<and> \<not> viewingExisting st
      | _ \<Rightarrow> False)"

section \<open>lib/api.ts: handleResponse\<close>

text \<open>
  A JSON value as \<^verbatim>\<open>res.json()\<close> delivers it. An object is the list of its members in the
  order of the text; when a key occurs twice the last occurrence counts.
\<close>

datatype json =
    JNull
  | JBool bool
  | JNum rat
  | JStr string
  | JArr "json list"
  | JObj "(string \<times> json) list"

text \<open>
  What \<open>handleResponse\<close> reads of a \<^verbatim>\<open>Response\<close>: the status, and the outcome of
  \<^verbatim>\<open>res.json()\<close>, \<open>None\<close> when that promise rejects (the body is not JSON).
  \<^verbatim>\<open>res.ok\<close> is defined by the Fetch standard as a status from 200 to 299.
\<close>

record Response =
  status :: nat
  body :: "json option"

definition ok :: "Response \<Rightarrow> bool" where
  "ok res = (200 \<le> status res \<and> status res \<le> 299)"

text \<open>
  The errors that can be thrown: \<open>Error v\<close> is \<^verbatim>\<open>new Error(v)\<close>, whose message is \<open>v\<close>
  converted to a string; \<open>TypeError\<close> is thrown by the engine on reading a property of
  \<^verbatim>\<open>null\<close>; \<open>SyntaxError\<close> is the rejection of \<^verbatim>\<open>res.json()\<close>.
\<close>

datatype js_error =
    RateLimitError string
  | Error json
  | TypeError
  | SyntaxError

text \<open>
  \<^verbatim>\<open>error.detail\<close>: the member of an object, \<^verbatim>\<open>undefined\<close> (\<open>None\<close>) on an object
  without it and on an array, string, number or boolean, and a TypeError on \<^verbatim>\<open>null\<close>.
\<close>

definition get_detail :: "json \<Rightarrow> js_error + json option" where
  "get_detail v =
     (case v of
        JNull \<Rightarrow> Inl TypeError
      | JObj members \<Rightarrow> Inr (map_of (rev members) ''detail'')
      | _ \<Rightarrow> Inr None)"

text \<open>The values that \<^verbatim>\<open>||\<close> passes over: undefined, null, false, 0 and the empty string.\<close>

definition truthy :: "json option \<Rightarrow> bool" where
  "truthy v =
     (case v of
        None \<Rightarrow> False
      | Some JNull \<Rightarrow> False
      | Some (JBool b) \<Rightarrow> b
      | Some (JNum n) \<Rightarrow> n \<noteq> 0
      | Some (JStr s) \<Rightarrow> s \<noteq> []
      | Some _ \<Rightarrow> True)"

definition js_or :: "json option \<Rightarrow> json \<Rightarrow> json" where
  "js_or a b = (case a of Some v \<Rightarrow> if truthy a then v else b | None \<Rightarrow> b)"

definition handleResponse :: "Response \<Rightarrow> string \<Rightarrow> js_error + json" where
  "handleResponse res errorMessage =
     (if status res = 429 then
        Inl (RateLimitError ''Too many requests. Please wait a moment and try again.'')
      else if \<not> ok res then
        (let error = (case body res of Some v \<Rightarrow> v | None \<Rightarrow> JObj [])
         in case get_detail error of
              Inl e \<Rightarrow> Inl e
            | Inr detail \<Rightarrow>
                Inl (Error (js_or detail (JStr errorMessage))))
      else
        (case body res of Some v \<Rightarrow> Inr v | None \<Rightarrow> Inl SyntaxError))"

definition is_RateLimitError :: "js_error + json \<Rightarrow> bool" where
  "is_RateLimitError r = (case r of Inl (RateLimitError m) \<Rightarrow> True | _ \<Rightarrow> False)"

section \<open>lib/cookies.ts\<close>

text \<open>The two constants at the head of the file.\<close>

definition SESSION_COOKIE_NAME :: string where
  "SESSION_COOKIE_NAME = ''tomoji_session''"

definition COOKIE_MAX_AGE :: nat where
  "COOKIE_MAX_AGE = 7 * 24 * 60 * 60"

text \<open>
  The template literal \<^verbatim>\<open>${COOKIE_MAX_AGE}\<close> writes the number in decimal.
\<close>

text \<open>The digit of a number below ten; \<open>show_nat\<close> asks for no other.\<close>

definition digit_char :: "nat \<Rightarrow> char" where
  "digit_char d = ''0123456789'' ! d"

function show_nat :: "nat \<Rightarrow> string" where
  "show_nat n = (if n < 10 then [digit_char n] else show_nat (n div 10) @ [digit_char (n mod 10)])"
  by pat_completeness auto
termination
  by (relation "measure id") auto

declare show_nat.simps [simp del]

subsection \<open>The browser's cookie store\<close>

text \<open>
  \<^verbatim>\<open>document.cookie\<close> belongs to the browser. The model has two parts.

  What the browser makes of the assigned string is fixed by the string alone (RFC 6265,
  section 5.2, with the rules of its revision 6265bis that browsers apply): a string with
  a control character other than the tab is ignored; the text up to the first semicolon
  is the name-value pair; with an equals sign the name is the text before the first one
  and the value the text after it, without one the name is empty and the value is the
  whole pair; both are trimmed of spaces and tabs; a pair with empty name and empty value
  is ignored; the rest are the attributes, of which a valid Max-Age that is zero or
  negative makes the cookie expire at once.

  What the document reads afterwards depends on the rest of the store, which the page
  cannot see: a cookie replaces only the cookie of the same name, domain and path;
  cookies of longer paths are served first and, among paths of equal length, cookies
  created earlier; HttpOnly cookies are not served, and a cookie may be refused for
  reasons of the store (an HttpOnly cookie of the same name, domain and path; a size
  limit). The model takes that as the answer of the browser to the assignment: it
  refuses the cookie, or it stores it and serves the document some cookies before it and
  some after it. A cookie jar is the list of the cookies served to the document, in the
  order of serving, each with its name (empty for a nameless cookie) and its value.
  Reading \<^verbatim>\<open>document.cookie\<close> gives their texts joined by a semicolon and a space, the
  text of a cookie being \<^verbatim>\<open>name=value\<close>, or the bare value when it has no name.
\<close>

type_synonym cookie = "string \<times> string"

type_synonym cookie_jar = "cookie list"

datatype store_answer = Refuses | Serves "cookie list" "cookie list"

definition is_ctl :: "char \<Rightarrow> bool" where
  "is_ctl c = (let n = (of_char c :: nat) in n \<le> 8 \<or> (10 \<le> n \<and> n \<le> 31) \<or> n = 127)"

definition is_wsp :: "char \<Rightarrow> bool" where
  "is_wsp c = (c = CHR '' '' \<or> c = CHR 0x09)"

definition trim_wsp :: "string \<Rightarrow> string" where
  "trim_wsp s = rev (dropWhile is_wsp (rev (dropWhile is_wsp s)))"

fun split_on :: "char \<Rightarrow> string \<Rightarrow> string list" where
  "split_on d [] = [[]]"
| "split_on d (c # cs) =
     (if c = d then [] # split_on d cs
      else case split_on d cs of p # ps \<Rightarrow> (c # p) # ps | [] \<Rightarrow> [[c]])"

definition attr_name :: "string \<Rightarrow> string" where
  "attr_name a = map to_lower (trim_wsp (takeWhile (\<lambda>c. c \<noteq> CHR ''='') a))"

definition attr_value :: "string \<Rightarrow> string" where
  "attr_value a = trim_wsp (drop 1 (dropWhile (\<lambda>c. c \<noteq> CHR ''='') a))"

definition is_digit :: "char \<Rightarrow> bool" where
  "is_digit c = (48 \<le> (of_char c :: nat) \<and> (of_char c :: nat) \<le> 57)"

definition max_age_valid :: "string \<Rightarrow> bool" where
  "max_age_valid v =
     (case v of [] \<Rightarrow> False | c # ds \<Rightarrow> (c = CHR ''-'' \<or> is_digit c) \<and> list_all is_digit ds)"

definition max_age_expired :: "string \<Rightarrow> bool" where
  "max_age_expired v = (case v of [] \<Rightarrow> False | c # ds \<Rightarrow> c = CHR ''-'' \<or> list_all (\<lambda>d. d = CHR ''0'') (c # ds))"

definition expires_at_once :: "string list \<Rightarrow> bool" where
  "expires_at_once attrs =
     (case filter max_age_valid (map attr_value (filter (\<lambda>a. attr_name a = ''max-age'') attrs)) of
        [] \<Rightarrow> False
      | v # vs \<Rightarrow> max_age_expired (last (v # vs)))"

text \<open>
  The cookie that an assigned string stands for, and whether it expires at once;
  \<open>None\<close> when the string is ignored.
\<close>

definition parse_cookie_string :: "string \<Rightarrow> (cookie \<times> bool) option" where
  "parse_cookie_string s =
     (if list_ex is_ctl s then None
      else
        (let nv = takeWhile (\<lambda>c. c \<noteq> CHR '';'') s;
             attrs = split_on (CHR '';'') (drop 1 (dropWhile (\<lambda>c. c \<noteq> CHR '';'') s));
             n = (if CHR ''='' \<in> set nv then trim_wsp (takeWhile (\<lambda>c. c \<noteq> CHR ''='') nv) else []);
             v = (if CHR ''='' \<in> set nv then trim_wsp (drop 1 (dropWhile (\<lambda>c. c \<noteq> CHR ''='') nv))
                  else trim_wsp nv)
         in if n = [] \<and> v = [] then None else Some ((n, v), expires_at_once attrs)))"

text \<open>
  The assignment \<^verbatim>\<open>document.cookie = s\<close>: the jar before it, the answer of the browser,
  the jar after it.
\<close>

definition document_cookie_set :: "store_answer \<Rightarrow> string \<Rightarrow> cookie_jar \<Rightarrow> cookie_jar" where
  "document_cookie_set answer s jar =
     (case parse_cookie_string s of
        None \<Rightarrow> jar
      | Some (c, expired) \<Rightarrow>
          (case answer of
             Refuses \<Rightarrow> jar
           | Serves before after \<Rightarrow> if expired then before @ after else before @ c # after))"

definition cookie_text :: "cookie \<Rightarrow> string" where
  "cookie_text c = (case c of (n, v) \<Rightarrow> if n = [] then v else n @ ''='' @ v)"

fun join_texts :: "string list \<Rightarrow> string" where
  "join_texts [] = []"
| "join_texts [t] = t"
| "join_texts (t # u # ts) = t @ ''; '' @ join_texts (u # ts)"

definition document_cookie_get :: "cookie_jar \<Rightarrow> string" where
  "document_cookie_get jar = join_texts (map cookie_text jar)"

subsection \<open>getSessionCookie, setSessionCookie, clearSessionCookie\<close>

text \<open>
  The regular expression \<^verbatim>\<open>(^| )tomoji_session=([^;]+)\<close>. \<open>match_rest t\<close> matches
  \<^verbatim>\<open>tomoji_session=([^;]+)\<close> at the start of \<open>t\<close> and gives the second group: the
  longest run of characters other than a semicolon, which must not be empty.
  \<open>regex_search\<close> is \<^verbatim>\<open>String.prototype.match\<close>: it tries the positions from left to
  right, at each position first the alternative \<^verbatim>\<open>^\<close> (only at the start of the
  string), then the alternative of a space.
\<close>

definition match_rest :: "string \<Rightarrow> string option" where
  "match_rest t =
     (if prefix (SESSION_COOKIE_NAME @ ''='') t then
        (let v = takeWhile (\<lambda>c. c \<noteq> CHR '';'') (drop (length (SESSION_COOKIE_NAME @ ''='')) t)
         in if v = [] then None else Some v)
      else None)"

fun regex_search :: "bool \<Rightarrow> string \<Rightarrow> string option" where
  "regex_search at_start [] = None"
| "regex_search at_start (c # t) =
     (case (if at_start then match_rest (c # t) else None) of
        Some v \<Rightarrow> Some v
      | None \<Rightarrow>
          (case (if c = CHR '' '' then match_rest t else None) of
             Some v \<Rightarrow> Some v
           | None \<Rightarrow> regex_search False t))"

definition getSessionCookie :: "cookie_jar \<Rightarrow> string option" where
  "getSessionCookie jar = regex_search True (document_cookie_get jar)"

definition setSessionCookie :: "store_answer \<Rightarrow> string \<Rightarrow> cookie_jar \<Rightarrow> cookie_jar" where
  "setSessionCookie answer sid jar =
     document_cookie_set answer
       (SESSION_COOKIE_NAME @ ''='' @ sid @ ''; path=/; max-age='' @ show_nat COOKIE_MAX_AGE @ ''; SameSite=Lax'')
       jar"

definition clearSessionCookie :: "store_answer \<Rightarrow> cookie_jar \<Rightarrow> cookie_jar" where
  "clearSessionCookie answer jar =
     document_cookie_set answer (SESSION_COOKIE_NAME @ ''=; path=/; max-age=0'') jar"

text \<open>
  The first match of the regular expression among the texts of a list of cookies, each
  text searched on its own from its start.
\<close>

fun first_match :: "string list \<Rightarrow> string option" where
  "first_match [] = None"
| "first_match (t # ts) = (case regex_search True t of Some v \<Rightarrow> Some v | None \<Rightarrow> first_match ts)"

section \<open>Font assembly (backend/services/font_builder.py) and the capture store\<close>

text \<open>
  Modelled from the spec: the font assembler and the capture store are backend code
  that is not among the source files. The definitions follow sections 3, 4.2 and 4.3 of
  the specification.
\<close>

text \<open>
  Modelled from the spec: a glyph identity is a sequence of one or more Unicode scalar
  values (the lead scalar and the rest), a name, and a hex key.
\<close>

record GlyphIdentity =
  lead_scalar :: nat
  more_scalars :: "nat list"
  glyph_name :: string
  hex_key :: string

text \<open>Modelled from the spec: an RGBA bitmap with its pixel dimensions.\<close>

record Bitmap =
  width :: nat
  height :: nat
  rgba :: "nat list"

definition valid_bitmap :: "Bitmap \<Rightarrow> bool" where
  "valid_bitmap b = (0 < width b \<and> 0 < height b \<and> length (rgba b) = 4 * width b * height b)"

datatype assemble_error = EmptyCaptureSet | InvalidBitmap GlyphIdentity

text \<open>
  Modelled from the spec: the font structure, as far as the glyph indexing goes. The glyph
  index of a glyph is its position in \<open>glyph_order\<close> and in \<open>glyph_bitmaps\<close>; \<open>cmap\<close>
  maps the lead scalar of each entry to its glyph index.
\<close>

record FontStructure =
  glyph_order :: "string list"
  glyph_bitmaps :: "Bitmap option list"
  cmap :: "(nat \<times> nat) list"

text \<open>
  Modelled from the spec: \<open>assemble\<close> fails with EmptyCaptureSet on no entries and with
  InvalidBitmap on the first malformed bitmap; otherwise glyph index 0 is the reserved
  ".notdef" glyph and each entry gets the next index in input order.
\<close>

fun assign_indices :: "nat \<Rightarrow> (GlyphIdentity \<times> Bitmap) list \<Rightarrow> (nat \<times> GlyphIdentity \<times> Bitmap) list" where
  "assign_indices next_index [] = []"
| "assign_indices next_index (e # es) = (next_index, e) # assign_indices (Suc next_index) es"

definition assemble :: "(GlyphIdentity \<times> Bitmap) list \<Rightarrow> assemble_error + FontStructure" where
  "assemble entries =
     (if entries = [] then Inl EmptyCaptureSet
      else case find (\<lambda>e. \<not> valid_bitmap (snd e)) entries of
             Some e \<Rightarrow> Inl (InvalidBitmap (fst e))
           | None \<Rightarrow>
               (let indexed = assign_indices 1 entries
                in Inr \<lparr>glyph_order = ''.notdef'' # map (\<lambda>(i, g, b). glyph_name g) indexed,
                        glyph_bitmaps = None # map (\<lambda>(i, g, b). Some b) indexed,
                        cmap = map (\<lambda>(i, g, b). (lead_scalar g, i)) indexed\<rparr>))"

text \<open>
  Modelled from the spec: the capture store of a session holds at most one bitmap per
  standard glyph, by hex key, and the custom glyphs in the order of their insertion;
  \<open>list_captures\<close> lists the standard glyphs in registry order, then the custom ones.
\<close>

record CaptureStore =
  standard_captures :: "string \<rightharpoonup> Bitmap"
  custom_captures :: "(GlyphIdentity \<times> Bitmap) list"

definition list_captures :: "GlyphIdentity list \<Rightarrow> CaptureStore \<Rightarrow> (GlyphIdentity \<times> Bitmap) list" where
  "list_captures registry store =
     List.map_filter (\<lambda>g. map_option (\<lambda>b. (g, b)) (standard_captures store (hex_key g))) registry
       @ custom_captures store"

definition export_font :: "GlyphIdentity list \<Rightarrow> CaptureStore \<Rightarrow> assemble_error + FontStructure" where
  "export_font registry store = assemble (list_captures registry store)"

section \<open>Concrete data used to run the definitions\<close>

text \<open>
  HOL characters are bytes, so an emoji is the list of its UTF-8 bytes:
  U+1F600, U+1F603 and U+1F604.
\<close>

definition e_grinning :: Emoji where
  "e_grinning = \<lparr>emoji = [CHR 0xF0, CHR 0x9F, CHR 0x98, CHR 0x80], codepoint = ''1f600'', name = ''grinning face''\<rparr>"

definition e_smiley :: Emoji where
  "e_smiley = \<lparr>emoji = [CHR 0xF0, CHR 0x9F, CHR 0x98, CHR 0x83], codepoint = ''1f603'', name = ''smiley''\<rparr>"

definition e_smile :: Emoji where
  "e_smile = \<lparr>emoji = [CHR 0xF0, CHR 0x9F, CHR 0x98, CHR 0x84], codepoint = ''1f604'', name = ''smile''\<rparr>"

text \<open>A stand-in for \<^verbatim>\<open>new Date(s).getTime()\<close> that knows two timestamps.\<close>

definition getTime_two :: "string \<Rightarrow> int option" where
  "getTime_two s =
     (if s = ''2024-01-01T00:00:00'' then Some 1704067200000
      else if s = ''2024-01-02T00:00:00'' then Some 1704153600000
      else None)"


text \<open>
  Stand-ins for the two platform functions of custom glyph validation, to run it on
  byte strings: every UTF-8 encoded code point is a segment of its own, and a string
  counts as pictographic when it has a code point beyond the Basic Multilingual Plane
  (a lead byte of a four-byte sequence).
\<close>

definition is_cont :: "char \<Rightarrow> bool" where
  "is_cont c = (128 \<le> (of_char c :: nat) \<and> (of_char c :: nat) < 192)"

function utf8_segments :: "string \<Rightarrow> string list" where
  "utf8_segments [] = []"
| "utf8_segments (c # cs) = (c # takeWhile is_cont cs) # utf8_segments (dropWhile is_cont cs)"
  by pat_completeness auto
termination
  by (relation "measure length") (auto simp: length_dropWhile_le less_Suc_eq_le)

definition has_supplementary :: "string \<Rightarrow> bool" where
  "has_supplementary s = list_ex (\<lambda>c. 240 \<le> (of_char c :: nat)) s"

text \<open>A capture modal opened on the first emoji, and a world in which everything succeeds.\<close>

definition props0 :: ModalProps where
  "props0 = \<lparr>m_sessionId = ''abcd1234'', m_emoji = e_grinning, existingCapture = None,
     isCustom = False, m_settings = defaultSettings, has_onNext = True\<rparr>"

definition env0 :: ModalEnv where
  "env0 = \<lparr>frame = Some ''data:image/jpeg;base64,AAAA'', file_read = None,
     preview_result = Inr ''data:image/png;base64,BBBB'', save_error = None, delete_error = None\<rparr>"


text \<open>A two-pixel bitmap and three glyph identities, one of them a custom glyph.\<close>

definition tiny_bitmap :: Bitmap where
  "tiny_bitmap = \<lparr>width = 1, height = 2, rgba = [255, 0, 0, 255, 0, 0, 0, 0]\<rparr>"

definition g_grinning :: GlyphIdentity where
  "g_grinning = \<lparr>lead_scalar = 0x1F600, more_scalars = [], glyph_name = ''grinning'', hex_key = ''1f600''\<rparr>"

definition g_smiley :: GlyphIdentity where
  "g_smiley = \<lparr>lead_scalar = 0x1F603, more_scalars = [], glyph_name = ''smiley'', hex_key = ''1f603''\<rparr>"

definition g_rocket :: GlyphIdentity where
  "g_rocket = \<lparr>lead_scalar = 0x1F680, more_scalars = [], glyph_name = ''rocket'', hex_key = ''1f680''\<rparr>"

section \<open>Properties of handleNext\<close>

lemma findIndex_from_range:
  "findIndex_from P xs k = -1 \<or> (k \<le> findIndex_from P xs k \<and> findIndex_from P xs k < k + int (length xs))"
  by (induction xs arbitrary: k) (auto, force+)

lemma findIndex_range: "-1 \<le> findIndex P xs \<and> findIndex P xs < int (length xs)"
  using findIndex_from_range [of P xs 0] by (auto simp: findIndex_def)

lemma js_rem_nonneg: "0 \<le> a \<Longrightarrow> 0 < b \<Longrightarrow> js_rem a b = a mod b"
  by (cases "a = 0") (auto simp: js_rem_def)

text \<open>Inside the loop the index \<^verbatim>\<open>(currentIndex + i) % emojis.length\<close> is a valid index.\<close>

lemma next_index_in_range:
  assumes "-1 \<le> c" "1 \<le> i" "i \<le> length es"
  shows "0 \<le> js_rem (c + int i) (int (length es)) \<and> js_rem (c + int i) (int (length es)) < int (length es)"
proof -
  have "0 \<le> c + int i" "0 < int (length es)" using assms by auto
  then show ?thesis by (simp add: js_rem_nonneg)
qed

lemma scan_order_rotate:
  assumes "-1 \<le> c" "c < int (length es)"
  shows "scan_order es c = rotate (nat (c + 1)) es"
proof (cases "nat (c + 1) = length es")
  case True
  then show ?thesis by (simp add: scan_order_def)
next
  case False
  with assms have "nat (c + 1) < length es" by auto
  then show ?thesis by (simp add: scan_order_def rotate_drop_take)
qed

text \<open>
  The loop from iteration \<open>i\<close> on is a search through the rest of the rotated list:
  induction on the number of iterations left.
\<close>

lemma handleNext_loop_find:
  assumes c: "-1 \<le> c" "c < int (length es)"
  shows "1 \<le> i \<Longrightarrow> i \<le> Suc (length es) \<Longrightarrow>
    handleNext_loop es captured c i =
      find (\<lambda>e. emoji e \<notin> captured) (drop (i - 1) (rotate (nat (c + 1)) es))"
proof (induction "Suc (length es) - i" arbitrary: i)
  case 0
  then have "i = Suc (length es)" by simp
  then show ?case by (simp add: handleNext_loop.simps)
next
  case (Suc d)
  then have i: "1 \<le> i" "i \<le> length es" by auto
  let ?r = "rotate (nat (c + 1)) es"
  have len: "i - 1 < length ?r" using i by simp
  have idx: "js_rem (c + int i) (int (length es)) = (c + int i) mod int (length es)"
    using c i by (intro js_rem_nonneg) auto
  have "nat ((c + int i) mod int (length es)) = (nat (c + 1) + (i - 1)) mod length es"
  proof -
    have "c + int i = int (nat (c + 1) + (i - 1))" using c i by auto
    then show ?thesis by (metis nat_int zmod_int)
  qed
  then have nth: "es ! nat (js_rem (c + int i) (int (length es))) = ?r ! (i - 1)"
    using len by (simp add: idx nth_rotate)
  have drop: "drop (i - 1) ?r = ?r ! (i - 1) # drop i ?r"
    using len i by (metis Cons_nth_drop_Suc Suc_diff_1 Suc_le_eq One_nat_def)
  have IH: "handleNext_loop es captured c (i + 1) = find (\<lambda>e. emoji e \<notin> captured) (drop i ?r)"
    using Suc.hyps(1) [of "i + 1"] Suc.hyps(2) i by simp
  have step: "handleNext_loop es captured c i =
      (if emoji (?r ! (i - 1)) \<notin> captured then Some (?r ! (i - 1))
       else handleNext_loop es captured c (i + 1))"
    using i nth by (subst handleNext_loop.simps) (simp add: Let_def)
  show ?case
    unfolding step drop IH by simp
qed

lemma handleNext_loop_scan:
  "handleNext_loop es captured (findIndex P es) 1 =
     find (\<lambda>e. emoji e \<notin> captured) (scan_order es (findIndex P es))"
  using handleNext_loop_find [of "findIndex P es" es 1 captured] findIndex_range [of P es]
  by (simp add: scan_order_rotate)

lemma set_scan_order: "set (scan_order es c) = set es"
proof -
  have "set (scan_order es c) = set (take (nat (c + 1)) es @ drop (nat (c + 1)) es)"
    unfolding scan_order_def by (simp only: set_append Un_commute)
  then show ?thesis by simp
qed

lemma handleNext_selected:
  assumes "selectedEmoji st = Some cur"
  shows "selectedEmoji (handleNext es captured st) =
     find (\<lambda>e. emoji e \<notin> captured) (scan_order es (findIndex (\<lambda>e. emoji e = emoji cur) es))"
  using assms unfolding handleNext_def Let_def handleNext_loop_scan
  by (simp split: option.splits)

text \<open>Without a selected emoji the handler changes nothing.\<close>

lemma handleNext_no_selection: "selectedEmoji st = None \<Longrightarrow> handleNext es captured st = st"
  by (simp add: handleNext_def)

lemma firstUncaptured_in_find:
  "firstUncaptured_in es captured = find (\<lambda>e. emoji e \<notin> captured) es"
  by (induction es) auto

lemma find_append_cases:
  "find P (xs @ ys) = (case find P xs of Some x \<Rightarrow> Some x | None \<Rightarrow> find P ys)"
  by (induction xs) auto

text \<open>The gallery's "Start!" button picks the first uncaptured emoji in category order.\<close>

lemma firstUncapturedEmoji_find:
  "firstUncapturedEmoji categories captured = find (\<lambda>e. emoji e \<notin> captured) (allEmojis categories)"
  by (induction categories) (auto simp: allEmojis_def firstUncaptured_in_find find_append_cases split: option.splits)

text \<open>
  \<^verbatim>\<open>findIndex\<close> gives the position of the first emoji of the list that is the current
  glyph, and \<open>-1\<close> when the current glyph is not in the list (a custom glyph).
\<close>

lemma findIndex_from_first:
  "P e \<Longrightarrow> \<forall>x \<in> set pre. \<not> P x \<Longrightarrow> findIndex_from P (pre @ e # post) k = k + int (length pre)"
  by (induction pre arbitrary: k) auto

lemma findIndex_from_none: "\<forall>x \<in> set es. \<not> P x \<Longrightarrow> findIndex_from P es k = -1"
  by (induction es arbitrary: k) auto

lemma findIndex_position:
  "P e \<Longrightarrow> \<forall>x \<in> set pre. \<not> P x \<Longrightarrow> findIndex P (pre @ e # post) = int (length pre)"
  by (simp add: findIndex_def findIndex_from_first)

lemma findIndex_absent: "\<forall>x \<in> set es. \<not> P x \<Longrightarrow> findIndex P es = -1"
  by (simp add: findIndex_def findIndex_from_none)

lemma scan_order_position: "scan_order (pre @ e # post) (int (length pre)) = post @ pre @ [e]"
proof -
  have "nat (int (length pre) + 1) = Suc (length pre)" by simp
  then show ?thesis by (simp add: scan_order_def)
qed

lemma scan_order_absent: "scan_order es (-1) = es"
  by (simp add: scan_order_def)

text \<open>
  Claim C8. Let an emoji be selected when \<open>handleNext\<close> runs (the modal that offers
  "Next" is only mounted then). When the current glyph stands in the list at some
  position, with \<open>pre\<close> before it and \<open>post\<close> after it, the handler selects the first
  uncaptured emoji of \<open>post\<close>, then of \<open>pre\<close>, then the current one itself: the scan
  goes forward from the position after the current index and wraps around. When the
  current glyph is not in the list the scan starts at the head of the list. So if at least
  one emoji of the list is uncaptured, an uncaptured emoji of the list is selected; if
  every emoji is captured, no emoji is selected, which closes the capture modal.
\<close>

theorem handleNext_next_uncaptured:
  assumes "selectedEmoji st = Some cur"
  shows "(\<forall>pre e post. es = pre @ e # post \<and> emoji e = emoji cur \<and> (\<forall>x \<in> set pre. emoji x \<noteq> emoji cur) \<longrightarrow>
            selectedEmoji (handleNext es captured st) =
              find (\<lambda>x. emoji x \<notin> captured) (post @ pre @ [e])) \<and>
         ((\<forall>x \<in> set es. emoji x \<noteq> emoji cur) \<longrightarrow>
            selectedEmoji (handleNext es captured st) = find (\<lambda>x. emoji x \<notin> captured) es) \<and>
         ((\<exists>x \<in> set es. emoji x \<notin> captured) \<longrightarrow>
            (\<exists>x. selectedEmoji (handleNext es captured st) = Some x \<and> x \<in> set es \<and> emoji x \<notin> captured)) \<and>
         ((\<forall>x \<in> set es. emoji x \<in> captured) \<longrightarrow>
            selectedEmoji (handleNext es captured st) = None \<and> \<not> modal_open (handleNext es captured st))"
proof (intro conjI allI impI)
  fix pre e post
  assume a: "es = pre @ e # post \<and> emoji e = emoji cur \<and> (\<forall>x \<in> set pre. emoji x \<noteq> emoji cur)"
  then have "findIndex (\<lambda>x. emoji x = emoji cur) es = int (length pre)"
    by (simp add: findIndex_position)
  with a show "selectedEmoji (handleNext es captured st) = find (\<lambda>x. emoji x \<notin> captured) (post @ pre @ [e])"
    using handleNext_selected [OF assms, of es captured] by (simp add: scan_order_position)
next
  assume "\<forall>x \<in> set es. emoji x \<noteq> emoji cur"
  then have "findIndex (\<lambda>x. emoji x = emoji cur) es = -1"
    by (simp add: findIndex_absent)
  then show "selectedEmoji (handleNext es captured st) = find (\<lambda>x. emoji x \<notin> captured) es"
    using handleNext_selected [OF assms, of es captured] by (simp add: scan_order_absent)
next
  let ?P = "\<lambda>e. emoji e \<notin> captured"
  let ?scan = "scan_order es (findIndex (\<lambda>e. emoji e = emoji cur) es)"
  assume "\<exists>x \<in> set es. emoji x \<notin> captured"
  then have "\<exists>e \<in> set ?scan. ?P e" by (simp add: set_scan_order)
  then obtain e where e: "find ?P ?scan = Some e"
    by (cases "find ?P ?scan") (auto simp: find_None_iff)
  then have "?P e" "e \<in> set ?scan" by (auto simp: find_Some_iff)
  then have "e \<in> set es" "emoji e \<notin> captured" by (simp_all add: set_scan_order)
  with e show "\<exists>x. selectedEmoji (handleNext es captured st) = Some x \<and> x \<in> set es \<and> emoji x \<notin> captured"
    using handleNext_selected [OF assms, of es captured] by simp
next
  let ?P = "\<lambda>e. emoji e \<notin> captured"
  let ?scan = "scan_order es (findIndex (\<lambda>e. emoji e = emoji cur) es)"
  assume "\<forall>x \<in> set es. emoji x \<in> captured"
  then have "find ?P ?scan = None" by (simp add: find_None_iff set_scan_order)
  then have sel: "selectedEmoji (handleNext es captured st) = None"
    using handleNext_selected [OF assms, of es captured] by simp
  then show "selectedEmoji (handleNext es captured st) = None" .
  from sel show "\<not> modal_open (handleNext es captured st)" by (simp add: modal_open_def)
qed

text \<open>
  The theorem at work on three emojis. The second is captured and selected: the handler
  moves on to the third, not back to the first. The third is captured and selected: the
  scan wraps around to the first. All three captured: the modal closes.
\<close>

theorem handleNext_next_uncaptured_witness:
  "selectedEmoji (handleNext [e_grinning, e_smiley, e_smile] {emoji e_smiley}
      (app_init\<lparr>selectedEmoji := Some e_smiley\<rparr>)) = Some e_smile \<and>
   selectedEmoji (handleNext [e_grinning, e_smiley, e_smile] {emoji e_smile}
      (app_init\<lparr>selectedEmoji := Some e_smile\<rparr>)) = Some e_grinning \<and>
   selectedEmoji (handleNext [e_grinning, e_smiley, e_smile] {emoji e_grinning, emoji e_smiley, emoji e_smile}
      (app_init\<lparr>selectedEmoji := Some e_smiley\<rparr>)) = None"
proof -
  let ?es = "[e_grinning, e_smiley, e_smile]"
  have sel1: "selectedEmoji (app_init\<lparr>selectedEmoji := Some e_smiley\<rparr>) = Some e_smiley"
    and sel2: "selectedEmoji (app_init\<lparr>selectedEmoji := Some e_smile\<rparr>) = Some e_smile"
    by simp_all
  have pos1: "?es = [e_grinning] @ e_smiley # [e_smile] \<and> emoji e_smiley = emoji e_smiley \<and>
      (\<forall>x \<in> set [e_grinning]. emoji x \<noteq> emoji e_smiley)"
    by (simp add: e_grinning_def e_smiley_def)
  have pos2: "?es = [e_grinning, e_smiley] @ e_smile # [] \<and> emoji e_smile = emoji e_smile \<and>
      (\<forall>x \<in> set [e_grinning, e_smiley]. emoji x \<noteq> emoji e_smile)"
    by (simp add: e_grinning_def e_smiley_def e_smile_def)
  have all: "\<forall>x \<in> set ?es. emoji x \<in> {emoji e_grinning, emoji e_smiley, emoji e_smile}"
    by simp
  have "selectedEmoji (handleNext ?es {emoji e_smiley} (app_init\<lparr>selectedEmoji := Some e_smiley\<rparr>)) =
      find (\<lambda>x. emoji x \<notin> {emoji e_smiley}) ([e_smile] @ [e_grinning] @ [e_smiley])"
    using handleNext_next_uncaptured [OF sel1, of ?es "{emoji e_smiley}", THEN conjunct1] pos1 by blast
  then have first: "selectedEmoji (handleNext ?es {emoji e_smiley} (app_init\<lparr>selectedEmoji := Some e_smiley\<rparr>)) =
      Some e_smile"
    by (simp add: e_smiley_def e_smile_def)
  have "selectedEmoji (handleNext ?es {emoji e_smile} (app_init\<lparr>selectedEmoji := Some e_smile\<rparr>)) =
      find (\<lambda>x. emoji x \<notin> {emoji e_smile}) ([] @ [e_grinning, e_smiley] @ [e_smile])"
    using handleNext_next_uncaptured [OF sel2, of ?es "{emoji e_smile}", THEN conjunct1] pos2 by blast
  then have second: "selectedEmoji (handleNext ?es {emoji e_smile} (app_init\<lparr>selectedEmoji := Some e_smile\<rparr>)) =
      Some e_grinning"
    by (simp add: e_grinning_def e_smile_def)
  have third: "selectedEmoji (handleNext ?es {emoji e_grinning, emoji e_smiley, emoji e_smile}
      (app_init\<lparr>selectedEmoji := Some e_smiley\<rparr>)) = None"
    using handleNext_next_uncaptured [OF sel1, of ?es "{emoji e_grinning, emoji e_smiley, emoji e_smile}"] all
    by blast
  from first second third show ?thesis by (intro conjI)
qed

section \<open>Properties of ExportView\<close>

lemma js_gt_iff: "js_gt a b \<longleftrightarrow> (\<exists>x y. a = Some x \<and> b = Some y \<and> y < x)"
  by (auto simp: js_gt_def split: option.splits)

text \<open>An empty timestamp string counts as no timestamp.\<close>

lemma buttonState_empty_generation:
  "offers_initial_generation (buttonState getTime (Some []) lastCaptureEdit)"
  by (simp add: buttonState_def offers_initial_generation_def)

lemma buttonState_unparsable:
  "getTime gen = None \<or> getTime edit = None \<Longrightarrow> gen \<noteq> [] \<Longrightarrow>
     reports_up_to_date (buttonState getTime (Some gen) (Some edit))"
  by (auto simp: buttonState_def reports_up_to_date_def js_gt_def split: option.splits)

text \<open>
  Claim C2. For every last-generation and last-capture-edit timestamp, the export view
  reports the font stale (regeneration offered and enabled) if and only if both
  timestamps are present and the time of the last capture edit is strictly greater
  than the time of the last generation. With no generation timestamp it offers the
  first generation; with a generation timestamp and no capture edit it reports the
  font up to date (regeneration disabled).
\<close>

theorem buttonState_stale_iff_edit_later:
  "(reports_stale (buttonState getTime lastGeneration lastCaptureEdit) \<longleftrightarrow>
      (\<exists>gen edit g e. lastGeneration = Some gen \<and> gen \<noteq> [] \<and> lastCaptureEdit = Some edit \<and> edit \<noteq> [] \<and>
         getTime gen = Some g \<and> getTime edit = Some e \<and> g < e)) \<and>
   (lastGeneration = None \<longrightarrow>
      offers_initial_generation (buttonState getTime lastGeneration lastCaptureEdit)) \<and>
   ((\<exists>gen. lastGeneration = Some gen \<and> gen \<noteq> []) \<and> lastCaptureEdit = None \<longrightarrow>
      reports_up_to_date (buttonState getTime lastGeneration lastCaptureEdit))"
proof (intro conjI impI)
  show "reports_stale (buttonState getTime lastGeneration lastCaptureEdit) \<longleftrightarrow>
      (\<exists>gen edit g e. lastGeneration = Some gen \<and> gen \<noteq> [] \<and> lastCaptureEdit = Some edit \<and> edit \<noteq> [] \<and>
         getTime gen = Some g \<and> getTime edit = Some e \<and> g < e)"
    by (cases lastGeneration; cases lastCaptureEdit)
       (auto simp: buttonState_def reports_stale_def js_gt_iff Let_def)
next
  assume "lastGeneration = None"
  then show "offers_initial_generation (buttonState getTime lastGeneration lastCaptureEdit)"
    by (simp add: buttonState_def offers_initial_generation_def)
next
  assume "(\<exists>gen. lastGeneration = Some gen \<and> gen \<noteq> []) \<and> lastCaptureEdit = None"
  then show "reports_up_to_date (buttonState getTime lastGeneration lastCaptureEdit)"
    by (auto simp: buttonState_def reports_up_to_date_def)
qed

text \<open>
  The staleness scenario of the specification: generated on 1 January, a capture edited
  on 2 January: stale; regenerated at the time of the edit: no longer stale. Never
  generated: the first generation is offered. Generated, never edited: up to date.
\<close>

theorem buttonState_stale_iff_edit_later_witness:
  "reports_stale (buttonState getTime_two (Some ''2024-01-01T00:00:00'') (Some ''2024-01-02T00:00:00'')) \<and>
   \<not> reports_stale (buttonState getTime_two (Some ''2024-01-02T00:00:00'') (Some ''2024-01-02T00:00:00'')) \<and>
   offers_initial_generation (buttonState getTime_two None (Some ''2024-01-02T00:00:00'')) \<and>
   reports_up_to_date (buttonState getTime_two (Some ''2024-01-01T00:00:00'') None)"
proof -
  have a: "reports_stale (buttonState getTime_two (Some ''2024-01-01T00:00:00'') (Some ''2024-01-02T00:00:00''))"
    using buttonState_stale_iff_edit_later
      [of getTime_two "Some ''2024-01-01T00:00:00''" "Some ''2024-01-02T00:00:00''"]
    by (simp add: getTime_two_def)
  have b: "\<not> reports_stale (buttonState getTime_two (Some ''2024-01-02T00:00:00'') (Some ''2024-01-02T00:00:00''))"
    using buttonState_stale_iff_edit_later
      [of getTime_two "Some ''2024-01-02T00:00:00''" "Some ''2024-01-02T00:00:00''"]
    by (simp add: getTime_two_def)
  have c: "offers_initial_generation (buttonState getTime_two None (Some ''2024-01-02T00:00:00''))"
    using buttonState_stale_iff_edit_later [of getTime_two None "Some ''2024-01-02T00:00:00''"]
    by simp
  have d: "reports_up_to_date (buttonState getTime_two (Some ''2024-01-01T00:00:00'') None)"
    using buttonState_stale_iff_edit_later [of getTime_two "Some ''2024-01-01T00:00:00''" None]
    by simp
  from a b c d show ?thesis by simp
qed

lemma handleExport_calls:
  "snd (handleExport export_result now load_error props (app, loc)) =
     (if capturedCount props = 0 \<or> sessionId props = [] then []
      else [ExportFont (sessionId props) (fontName loc)])"
  by (simp add: handleExport_def Let_def loadFont_def split: sum.splits option.splits prod.splits)

text \<open>
  Claim C3. When the session has no captured glyph, \<open>handleExport\<close> fails with an
  error message, issues no request and leaves the font state of the application as it
  was; whenever it does call \<^verbatim>\<open>exportFont\<close>, at least one capture exists.
\<close>

theorem handleExport_empty_capture_set:
  "(capturedCount props = 0 \<longrightarrow>
      snd (handleExport export_result now load_error props (app, loc)) = [] \<and>
      export_error (snd (fst (handleExport export_result now load_error props (app, loc)))) =
        Some ''No emojis captured yet. Go to Gallery and capture some emojis first!'' \<and>
      fst (fst (handleExport export_result now load_error props (app, loc))) = app) \<and>
   (list_ex is_export (snd (handleExport export_result now load_error props (app, loc))) \<longrightarrow>
      0 < capturedCount props)"
proof (intro conjI impI)
  assume z: "capturedCount props = 0"
  then show "snd (handleExport export_result now load_error props (app, loc)) = []"
    by (simp add: handleExport_calls)
  from z show "export_error (snd (fst (handleExport export_result now load_error props (app, loc)))) =
        Some ''No emojis captured yet. Go to Gallery and capture some emojis first!''"
    by (simp add: handleExport_def)
  from z show "fst (fst (handleExport export_result now load_error props (app, loc))) = app"
    by (simp add: handleExport_def)
next
  assume "list_ex is_export (snd (handleExport export_result now load_error props (app, loc)))"
  then show "0 < capturedCount props"
    by (simp add: handleExport_calls split: if_splits)
qed

text \<open>
  With no capture the export is refused, whatever the backend would have answered; with
  two captures the request goes out.
\<close>

theorem handleExport_empty_capture_set_witness:
  "snd (handleExport (Inr \<lparr>success = True, captured_count = 2, total_emojis = 35,
          font_url = ''/api/abcd1234/font.woff2'', er_last_generation = ''2024-01-02T00:00:00''\<rparr>)
        ''1704153600000'' None \<lparr>sessionId = ''abcd1234'', capturedCount = 0\<rparr>
        (app_init, \<lparr>fontName = ''Tomoji'', isExporting = False, export_error = None\<rparr>)) = [] \<and>
   0 < capturedCount \<lparr>sessionId = ''abcd1234'', capturedCount = 2\<rparr> \<and>
   list_ex is_export (snd (handleExport (Inr \<lparr>success = True, captured_count = 2, total_emojis = 35,
          font_url = ''/api/abcd1234/font.woff2'', er_last_generation = ''2024-01-02T00:00:00''\<rparr>)
        ''1704153600000'' None \<lparr>sessionId = ''abcd1234'', capturedCount = 2\<rparr>
        (app_init, \<lparr>fontName = ''Tomoji'', isExporting = False, export_error = None\<rparr>)))"
proof -
  let ?r = "Inr \<lparr>success = True, captured_count = 2, total_emojis = 35,
          font_url = ''/api/abcd1234/font.woff2'', er_last_generation = ''2024-01-02T00:00:00''\<rparr>"
  let ?loc = "\<lparr>fontName = ''Tomoji'', isExporting = False, export_error = None\<rparr>"
  have sent: "list_ex is_export (snd (handleExport ?r ''1704153600000'' None
        \<lparr>sessionId = ''abcd1234'', capturedCount = 2\<rparr> (app_init, ?loc)))"
    by (simp add: handleExport_def loadFont_def is_export_def Let_def)
  have none: "snd (handleExport ?r ''1704153600000'' None
        \<lparr>sessionId = ''abcd1234'', capturedCount = 0\<rparr> (app_init, ?loc)) = []"
    using handleExport_empty_capture_set
      [of "\<lparr>sessionId = ''abcd1234'', capturedCount = 0\<rparr>" ?r "''1704153600000''" None app_init ?loc]
    by simp
  have pos: "0 < capturedCount \<lparr>sessionId = ''abcd1234'', capturedCount = 2\<rparr>"
    using handleExport_empty_capture_set
      [of "\<lparr>sessionId = ''abcd1234'', capturedCount = 2\<rparr>" ?r "''1704153600000''" None app_init ?loc] sent
    by blast
  from none pos sent show ?thesis by blast
qed

section \<open>Properties of handleClearAll\<close>

text \<open>When \<^verbatim>\<open>clearSession\<close> throws, the font state is kept and the error is passed on.\<close>

lemma handleClearAll_failure:
  "co_thrown (handleClearAll sid (Inl msg) st) = Some msg \<and>
   fontUrl (co_state (handleClearAll sid (Inl msg) st)) = fontUrl st \<and>
   fontLoaded (co_state (handleClearAll sid (Inl msg) st)) = fontLoaded st \<and>
   fontFamilyId (co_state (handleClearAll sid (Inl msg) st)) = fontFamilyId st \<and>
   localLastGeneration (co_state (handleClearAll sid (Inl msg) st)) = localLastGeneration st"
  by (simp add: handleClearAll_def)

text \<open>
  Claim C5. After a successful clear of the session's captures the cached font state is
  invalidated: the font URL, the font family id and the last-generation timestamp are
  null and the font-loaded flag is false.
\<close>

theorem handleClearAll_invalidates_font:
  assumes "clear_result = Inr deleted_count"
  shows "fontUrl (co_state (handleClearAll sid clear_result st)) = None \<and>
         fontFamilyId (co_state (handleClearAll sid clear_result st)) = None \<and>
         localLastGeneration (co_state (handleClearAll sid clear_result st)) = None \<and>
         \<not> fontLoaded (co_state (handleClearAll sid clear_result st))"
  using assms by (simp add: handleClearAll_def)

text \<open>A session with a loaded font, cleared: nothing of the font state is left.\<close>

theorem handleClearAll_invalidates_font_witness:
  "fontUrl (co_state (handleClearAll ''abcd1234'' (Inr 2)
      (app_init\<lparr>fontUrl := Some ''/api/abcd1234/font.woff2'', fontLoaded := True,
         fontFamilyId := Some ''tomoji-preview-1704153600000'',
         localLastGeneration := Some ''2024-01-02T00:00:00''\<rparr>))) = None \<and>
   fontFamilyId (co_state (handleClearAll ''abcd1234'' (Inr 2)
      (app_init\<lparr>fontUrl := Some ''/api/abcd1234/font.woff2'', fontLoaded := True,
         fontFamilyId := Some ''tomoji-preview-1704153600000'',
         localLastGeneration := Some ''2024-01-02T00:00:00''\<rparr>))) = None \<and>
   localLastGeneration (co_state (handleClearAll ''abcd1234'' (Inr 2)
      (app_init\<lparr>fontUrl := Some ''/api/abcd1234/font.woff2'', fontLoaded := True,
         fontFamilyId := Some ''tomoji-preview-1704153600000'',
         localLastGeneration := Some ''2024-01-02T00:00:00''\<rparr>))) = None \<and>
   \<not> fontLoaded (co_state (handleClearAll ''abcd1234'' (Inr 2)
      (app_init\<lparr>fontUrl := Some ''/api/abcd1234/font.woff2'', fontLoaded := True,
         fontFamilyId := Some ''tomoji-preview-1704153600000'',
         localLastGeneration := Some ''2024-01-02T00:00:00''\<rparr>)))"
proof -
  have ok: "(Inr 2 :: string + nat) = Inr 2" by simp
  show ?thesis
    using handleClearAll_invalidates_font [OF ok, of "''abcd1234''"] by blast
qed


section \<open>Properties of custom glyph validation\<close>

lemma extract_member:
  "extractFirstEmoji segment test s = [] \<or>
   (extractFirstEmoji segment test s \<in> set (segment s) \<and> test (extractFirstEmoji segment test s))"
  by (auto simp: extractFirstEmoji_def find_Some_iff split: option.splits)

lemma extract_single:
  "segment s = [s] \<Longrightarrow> test s \<Longrightarrow> extractFirstEmoji segment test s = s"
  by (simp add: extractFirstEmoji_def)

lemma concat_single:
  assumes "concat xss = g" "g \<in> set xss" "[] \<notin> set xss"
  shows "xss = [g]"
proof -
  from assms(2) obtain ps ss where split: "xss = ps @ g # ss" by (auto simp: in_set_conv_decomp)
  with assms(1) have "concat ps @ g @ concat ss = g" by simp
  then have "length (concat ps) + length (concat ss) = 0"
    by (metis add_cancel_right_right add.assoc add.commute length_append)
  then have "concat ps = []" "concat ss = []" by auto
  moreover have "[] \<notin> set ps" "[] \<notin> set ss" using assms(3) split by auto
  ultimately have "ps = []" "ss = []" by (cases ps, auto) (cases ss, auto)
  with split show ?thesis by simp
qed

lemma valid_iff_single:
  assumes "concat (segment s) = s" "[] \<notin> set (segment s)"
  shows "isValidEmoji segment test s \<longleftrightarrow> segment s = [s] \<and> test s"
proof
  assume v: "isValidEmoji segment test s"
  then have s: "s \<noteq> []" "extractFirstEmoji segment test s = s" by (simp_all add: isValidEmoji_def)
  with extract_member [of segment test s] have "s \<in> set (segment s)" "test s" by auto
  with assms show "segment s = [s] \<and> test s" using concat_single by blast
next
  assume a: "segment s = [s] \<and> test s"
  with assms(2) have "s \<noteq> []" by auto
  with a show "isValidEmoji segment test s" by (simp add: isValidEmoji_def extract_single)
qed

lemma extract_idem:
  assumes "\<forall>g \<in> set (segment s). segment g = [g]"
  shows "extractFirstEmoji segment test (extractFirstEmoji segment test s) = extractFirstEmoji segment test s"
proof (cases "extractFirstEmoji segment test s = []")
  case True
  then show ?thesis by (simp add: extractFirstEmoji_def)
next
  case False
  with extract_member [of segment test s]
  have "extractFirstEmoji segment test s \<in> set (segment s)" "test (extractFirstEmoji segment test s)" by auto
  with assms show ?thesis by (simp add: extract_single)
qed

text \<open>
  Claim C1. Let the segmenter split \<open>s\<close> into non-empty segments whose concatenation
  is \<open>s\<close>, and let each of these segments, segmented on its own, be one segment (as
  grapheme clusters are). Then \<open>isValidEmoji\<close> accepts \<open>s\<close> iff \<open>s\<close> is non-empty and
  equals \<open>extractFirstEmoji s\<close>, that is, iff \<open>s\<close> is exactly one grapheme cluster and
  passes the Extended_Pictographic test; extraction is idempotent; a single pictographic
  grapheme is returned unchanged; and validation fails for every empty, multi-grapheme
  or non-pictographic string.
\<close>

theorem isValidEmoji_single_pictographic_grapheme:
  assumes "concat (segment s) = s" and "[] \<notin> set (segment s)"
    and "\<forall>g \<in> set (segment s). segment g = [g]"
  shows "(isValidEmoji segment test s \<longleftrightarrow> s \<noteq> [] \<and> s = extractFirstEmoji segment test s) \<and>
         (isValidEmoji segment test s \<longleftrightarrow> segment s = [s] \<and> test s) \<and>
         extractFirstEmoji segment test (extractFirstEmoji segment test s) = extractFirstEmoji segment test s \<and>
         (segment s = [s] \<and> test s \<longrightarrow> extractFirstEmoji segment test s = s) \<and>
         (s = [] \<or> length (segment s) \<noteq> 1 \<or> \<not> test s \<longrightarrow> \<not> isValidEmoji segment test s)"
proof (intro conjI impI)
  show "isValidEmoji segment test s \<longleftrightarrow> s \<noteq> [] \<and> s = extractFirstEmoji segment test s"
    by (simp add: isValidEmoji_def)
  show iff: "isValidEmoji segment test s \<longleftrightarrow> segment s = [s] \<and> test s"
    using assms(1,2) by (rule valid_iff_single)
  show "extractFirstEmoji segment test (extractFirstEmoji segment test s) = extractFirstEmoji segment test s"
    using assms(3) by (rule extract_idem)
  show "extractFirstEmoji segment test s = s" if "segment s = [s] \<and> test s"
    using that by (simp add: extract_single)
  show "\<not> isValidEmoji segment test s" if bad: "s = [] \<or> length (segment s) \<noteq> 1 \<or> \<not> test s"
  proof
    assume "isValidEmoji segment test s"
    with iff have one: "segment s = [s]" and t: "test s" by blast+
    from one assms(2) have "s \<noteq> []" by auto
    with one t bad show False by simp
  qed
qed

text \<open>
  One emoji is valid and extracted unchanged; two emojis in a row are not valid and the
  first is extracted; plain letters are not valid.
\<close>

theorem isValidEmoji_single_pictographic_grapheme_witness:
  "isValidEmoji utf8_segments has_supplementary (emoji e_grinning) \<and>
   extractFirstEmoji utf8_segments has_supplementary (emoji e_grinning) = emoji e_grinning \<and>
   \<not> isValidEmoji utf8_segments has_supplementary (emoji e_grinning @ emoji e_smiley) \<and>
   extractFirstEmoji utf8_segments has_supplementary (emoji e_grinning @ emoji e_smiley) = emoji e_grinning \<and>
   \<not> isValidEmoji utf8_segments has_supplementary ''ab''"
proof -
  have one: "utf8_segments (emoji e_grinning) = [emoji e_grinning]"
    by (simp add: e_grinning_def is_cont_def)
  have two: "utf8_segments (emoji e_grinning @ emoji e_smiley) = [emoji e_grinning, emoji e_smiley]"
    by (simp add: e_grinning_def e_smiley_def is_cont_def)
  have ab: "utf8_segments ''ab'' = [''a'', ''b'']"
    by (simp add: is_cont_def)
  have sm: "utf8_segments (emoji e_smiley) = [emoji e_smiley]"
    by (simp add: e_smiley_def is_cont_def)
  have a1: "utf8_segments ''a'' = [''a'']" "utf8_segments ''b'' = [''b'']"
    by (simp_all add: is_cont_def)
  have pict: "has_supplementary (emoji e_grinning)"
    by (simp add: e_grinning_def has_supplementary_def)
  have ne: "emoji e_grinning \<noteq> []" "emoji e_smiley \<noteq> []"
    by (simp_all add: e_grinning_def e_smiley_def)
  have h1: "concat (utf8_segments (emoji e_grinning)) = emoji e_grinning"
    "[] \<notin> set (utf8_segments (emoji e_grinning))"
    "\<forall>g \<in> set (utf8_segments (emoji e_grinning)). utf8_segments g = [g]"
    using one ne by simp_all
  have h2: "concat (utf8_segments (emoji e_grinning @ emoji e_smiley)) = emoji e_grinning @ emoji e_smiley"
    "[] \<notin> set (utf8_segments (emoji e_grinning @ emoji e_smiley))"
    "\<forall>g \<in> set (utf8_segments (emoji e_grinning @ emoji e_smiley)). utf8_segments g = [g]"
    using two one sm ne by simp_all
  have h3: "concat (utf8_segments ''ab'') = ''ab''"
    "[] \<notin> set (utf8_segments ''ab'')"
    "\<forall>g \<in> set (utf8_segments ''ab''). utf8_segments g = [g]"
    using ab a1 by simp_all
  have l2: "length (utf8_segments (emoji e_grinning @ emoji e_smiley)) \<noteq> 1"
    "length (utf8_segments ''ab'') \<noteq> 1"
    using two ab by simp_all
  note g = isValidEmoji_single_pictographic_grapheme [OF h1, of has_supplementary]
  note gs = isValidEmoji_single_pictographic_grapheme [OF h2, of has_supplementary]
  note ab' = isValidEmoji_single_pictographic_grapheme [OF h3, of has_supplementary]
  have single: "utf8_segments (emoji e_grinning) = [emoji e_grinning] \<and> has_supplementary (emoji e_grinning)"
    using one pict by (rule conjI)
  have v1: "isValidEmoji utf8_segments has_supplementary (emoji e_grinning)"
    using g [THEN conjunct2, THEN conjunct1] single by (rule iffD2)
  have v1': "extractFirstEmoji utf8_segments has_supplementary (emoji e_grinning) = emoji e_grinning"
    using g [THEN conjunct2, THEN conjunct2, THEN conjunct2, THEN conjunct1] single by (rule mp)
  have v2: "\<not> isValidEmoji utf8_segments has_supplementary (emoji e_grinning @ emoji e_smiley)"
    using gs [THEN conjunct2, THEN conjunct2, THEN conjunct2, THEN conjunct2] l2(1) by (rule mp [OF _ disjI2 [OF disjI1]])
  have v3: "\<not> isValidEmoji utf8_segments has_supplementary ''ab''"
    using ab' [THEN conjunct2, THEN conjunct2, THEN conjunct2, THEN conjunct2] l2(2) by (rule mp [OF _ disjI2 [OF disjI1]])
  have v4: "extractFirstEmoji utf8_segments has_supplementary (emoji e_grinning @ emoji e_smiley) = emoji e_grinning"
    using two pict ne by (simp add: extractFirstEmoji_def)
  from v1 v1' v2 v3 v4 show ?thesis by (intro conjI)
qed

section \<open>Properties of capture, preview and accept\<close>

lemma preview_then_calls:
  "mo_calls (preview_then env props img st) =
     [PreviewCapture (m_sessionId props) (currentEmoji props st) (preview_params img props)]"
  by (simp add: preview_then_def)

lemma handleCapture_calls:
  "mo_calls (handleCapture env props st) =
     (case frame env of
        None \<Rightarrow> []
      | Some f \<Rightarrow> [PreviewCapture (m_sessionId props) (currentEmoji props st) (preview_params f props)])"
  by (auto simp: handleCapture_def preview_then_calls currentEmoji_def split: option.splits)

lemma handleUpload_calls:
  "mo_calls (handleUpload env props st) =
     (case file_read env of
        None \<Rightarrow> []
      | Some f \<Rightarrow> [PreviewCapture (m_sessionId props) (currentEmoji props st) (preview_params f props)])"
  by (auto simp: handleUpload_def Let_def preview_then_calls currentEmoji_def split: option.splits)

lemma accept_with_calls:
  "mo_calls (accept_with after env props st) =
     (case processedImage st of
        None \<Rightarrow> []
      | Some img \<Rightarrow>
          if img = [] \<or> js_trim (currentEmoji props st) = [] then []
          else [SaveCapture (m_sessionId props) (currentEmoji props st) img])"
  by (simp add: accept_with_def Let_def split: option.splits)

lemma handleDelete_calls:
  "mo_calls (handleDelete env props st) = [DeleteCapture (m_sessionId props) (currentEmoji props st)]"
  by (simp add: handleDelete_def split: option.splits)

lemma save_only_in_accept:
  assumes "c \<in> set (mo_calls (accept_with after env props st))"
  shows "\<exists>img. processedImage st = Some img \<and> img \<noteq> [] \<and>
           c = SaveCapture (m_sessionId props) (currentEmoji props st) img"
  using assms by (auto simp: accept_with_calls split: option.splits if_splits)

lemma handleKeyDown_save:
  assumes "c \<in> set (mo_calls (handleKeyDown env props key in_form st))" "is_save c"
  shows "accepts_preview (KeyDown key in_form) st \<and>
         (\<exists>img. processedImage st = Some img \<and> img \<noteq> [] \<and>
            c = SaveCapture (m_sessionId props) (currentEmoji props st) img)"
proof -
  have nosave: "c \<notin> set (mo_calls (handleCapture env props st))" "c \<notin> set (mo_calls (handleDelete env props st))"
    using assms(2) by (auto simp: handleCapture_calls handleDelete_calls is_save_def split: option.splits)
  show ?thesis
  proof (cases "accepts_preview (KeyDown key in_form) st")
    case True
    then have "c \<in> set (mo_calls (accept_with (if has_onNext props then [OnNext] else []) env props st))
        \<or> c \<in> set (mo_calls (accept_with [OnComplete] env props st))"
      using assms(1) nosave
      by (auto simp: handleKeyDown_def accepts_preview_def handleAccept_def handleAcceptAndNext_def
          split: if_splits)
    with True show ?thesis using save_only_in_accept by blast
  next
    case False
    then have False
      using assms(1) nosave
      by (auto simp: handleKeyDown_def accepts_preview_def split: if_splits)
    then show ?thesis ..
  qed
qed

text \<open>
  Claim C4. Previewing a capture, from a webcam frame (\<open>handleCapture\<close>) or from an
  uploaded file (\<open>handleUpload\<close>), calls only \<^verbatim>\<open>previewCapture\<close> and never
  \<^verbatim>\<open>saveCapture\<close>. Whatever the user does in the modal, a \<^verbatim>\<open>saveCapture\<close> call is made
  only when the user accepts a preview (Accept, Next, or Enter/space on a new preview),
  and it saves the preview image held in the modal.
\<close>

theorem preview_never_saves:
  "list_all is_preview (mo_calls (handleCapture env props st)) \<and>
   list_all is_preview (mo_calls (handleUpload env props st)) \<and>
   \<not> list_ex is_save (mo_calls (handleCapture env props st)) \<and>
   \<not> list_ex is_save (mo_calls (handleUpload env props st)) \<and>
   (\<forall>c \<in> set (mo_calls (modal_step segment test env props ev st)). is_save c \<longrightarrow>
      accepts_preview ev st \<and>
      (\<exists>img. processedImage st = Some img \<and> img \<noteq> [] \<and>
         c = SaveCapture (m_sessionId props) (currentEmoji props st) img))"
proof (intro conjI ballI impI)
  show "list_all is_preview (mo_calls (handleCapture env props st))"
    by (simp add: handleCapture_calls is_preview_def split: option.splits)
  show "list_all is_preview (mo_calls (handleUpload env props st))"
    by (simp add: handleUpload_calls is_preview_def split: option.splits)
  show "\<not> list_ex is_save (mo_calls (handleCapture env props st))"
    by (simp add: handleCapture_calls is_save_def split: option.splits)
  show "\<not> list_ex is_save (mo_calls (handleUpload env props st))"
    by (simp add: handleUpload_calls is_save_def split: option.splits)
next
  fix c
  assume c: "c \<in> set (mo_calls (modal_step segment test env props ev st))" and s: "is_save c"
  have both: "accepts_preview ev st \<and>
      (\<exists>img. processedImage st = Some img \<and> img \<noteq> [] \<and>
         c = SaveCapture (m_sessionId props) (currentEmoji props st) img)"
  proof (cases ev)
    case ClickAccept
    with c show ?thesis
      using save_only_in_accept [of c "[OnComplete]" env props st]
      by (simp add: handleAccept_def accepts_preview_def)
  next
    case ClickNext
    with c show ?thesis
      using save_only_in_accept [of c "if has_onNext props then [OnNext] else []" env props st]
      by (simp add: handleAcceptAndNext_def accepts_preview_def)
  next
    case (KeyDown key in_form)
    with c s show ?thesis using handleKeyDown_save by simp
  qed (use c s in \<open>auto simp: handleCapture_calls handleUpload_calls handleDelete_calls handleRetake_def
        handleEmojiInput_def is_save_def split: option.splits\<close>)
  from both show "accepts_preview ev st" ..
  from both show "\<exists>img. processedImage st = Some img \<and> img \<noteq> [] \<and>
         c = SaveCapture (m_sessionId props) (currentEmoji props st) img" ..
qed

text \<open>
  A frame is captured and previewed: only the preview request goes out. The user then
  clicks Accept: the preview image is saved.
\<close>

theorem preview_never_saves_witness:
  "mo_calls (handleCapture env0 props0 (modal_init props0)) =
     [PreviewCapture ''abcd1234'' (emoji e_grinning) (preview_params ''data:image/jpeg;base64,AAAA'' props0)] \<and>
   mo_calls (modal_step utf8_segments has_supplementary env0 props0 ClickAccept
       (mo_state (handleCapture env0 props0 (modal_init props0)))) =
     [SaveCapture ''abcd1234'' (emoji e_grinning) ''data:image/png;base64,BBBB''] \<and>
   accepts_preview ClickAccept (mo_state (handleCapture env0 props0 (modal_init props0))) \<and>
   processedImage (mo_state (handleCapture env0 props0 (modal_init props0))) =
     Some ''data:image/png;base64,BBBB''"
proof -
  let ?st = "mo_state (handleCapture env0 props0 (modal_init props0))"
  let ?save = "SaveCapture ''abcd1234'' (emoji e_grinning) ''data:image/png;base64,BBBB''"
  have img: "processedImage ?st = Some ''data:image/png;base64,BBBB''"
    by (simp add: handleCapture_def preview_then_def env0_def)
  have cur: "currentEmoji props0 ?st = emoji e_grinning"
    by (simp add: currentEmoji_def props0_def)
  have start: "strip_start js_white_space (emoji e_grinning) = emoji e_grinning"
    by (subst strip_start.simps) (simp add: js_white_space_def e_grinning_def)
  have "strip_start (map rev js_white_space) (rev (emoji e_grinning)) = rev (emoji e_grinning)"
    by (subst strip_start.simps) (simp add: js_white_space_def e_grinning_def)
  with start have "js_trim (emoji e_grinning) = emoji e_grinning"
    by (simp add: js_trim_def)
  then have trim: "js_trim (emoji e_grinning) \<noteq> []"
    by (simp add: e_grinning_def)
  have prev: "mo_calls (handleCapture env0 props0 (modal_init props0)) =
     [PreviewCapture ''abcd1234'' (emoji e_grinning) (preview_params ''data:image/jpeg;base64,AAAA'' props0)]"
    by (simp add: handleCapture_def preview_then_def env0_def currentEmoji_def props0_def)
  have calls: "mo_calls (modal_step utf8_segments has_supplementary env0 props0 ClickAccept ?st) = [?save]"
    using img cur trim
    by (simp add: handleAccept_def accept_with_def Let_def env0_def) (simp add: props0_def)
  have mem: "?save \<in> set (mo_calls (modal_step utf8_segments has_supplementary env0 props0 ClickAccept ?st))"
    unfolding calls by simp
  have sv: "is_save ?save" by (simp add: is_save_def)
  have acc: "accepts_preview ClickAccept ?st"
    using preview_never_saves [of env0 props0 ?st utf8_segments has_supplementary ClickAccept]
      mem sv by blast
  from prev calls acc img show ?thesis by (intro conjI)
qed


section \<open>Properties of the settings\<close>




lemma loadSettings_failure: "settings (loadSettings (Inl err) st) = settings st"
  by (simp add: loadSettings_def)






section \<open>Properties of handleResponse\<close>

lemma get_detail_error: "get_detail v = Inl e \<Longrightarrow> e = TypeError"
  by (cases v) (auto simp: get_detail_def)

lemma handleResponse_rate_limit: "is_RateLimitError (handleResponse res msg) \<longleftrightarrow> status res = 429"
  by (auto simp: handleResponse_def is_RateLimitError_def Let_def dest: get_detail_error
      split: sum.splits option.splits js_error.splits)

lemma ok_not_429: "ok res \<Longrightarrow> status res \<noteq> 429"
  by (simp add: ok_def)

lemma get_detail_not_null: "v \<noteq> JNull \<Longrightarrow> \<exists>d. get_detail v = Inr d"
  by (cases v) (simp_all add: get_detail_def)

text \<open>
  Claim C9, as stated, fails at two responses. An ok response whose body is not JSON: the
  handler returns no body, it rejects with the error of \<^verbatim>\<open>res.json()\<close>. A response that
  is not ok and whose body is the JSON value \<^verbatim>\<open>null\<close>: reading \<^verbatim>\<open>error.detail\<close> throws a
  TypeError, and neither a detail nor the fallback message is carried.
\<close>

theorem handleResponse_claim_fails:
  "ok \<lparr>status = 200, body = None\<rparr> \<and>
   handleResponse \<lparr>status = 200, body = None\<rparr> ''Failed to create session'' = Inl SyntaxError \<and>
   \<not> ok \<lparr>status = 500, body = Some JNull\<rparr> \<and>
   handleResponse \<lparr>status = 500, body = Some JNull\<rparr> ''Failed to create session'' = Inl TypeError"
  by (simp add: handleResponse_def ok_def get_detail_def)

text \<open>
  Claim C9, amended. The handler throws RateLimitError iff the status is 429. For every
  other response that is not ok and whose body is not the JSON value null, it throws an
  Error made from the \<open>detail\<close> member of the body when that is truthy, and from the
  fallback message otherwise, also when the body is not JSON. For every ok response it
  returns the parsed JSON body when the body is JSON and rejects with the parse error
  when it is not.
\<close>

theorem handleResponse_cases:
  "(is_RateLimitError (handleResponse res errorMessage) \<longleftrightarrow> status res = 429) \<and>
   (status res \<noteq> 429 \<and> \<not> ok res \<and> body res = None \<longrightarrow>
      handleResponse res errorMessage = Inl (Error (JStr errorMessage))) \<and>
   (\<forall>v. status res \<noteq> 429 \<and> \<not> ok res \<and> body res = Some v \<and> v \<noteq> JNull \<longrightarrow>
      (\<exists>d. get_detail v = Inr d \<and>
           handleResponse res errorMessage =
             Inl (Error (case d of Some x \<Rightarrow> if truthy d then x else JStr errorMessage
                         | None \<Rightarrow> JStr errorMessage)))) \<and>
   (ok res \<longrightarrow>
      handleResponse res errorMessage = (case body res of Some v \<Rightarrow> Inr v | None \<Rightarrow> Inl SyntaxError))"
proof (intro conjI impI allI)
  show "is_RateLimitError (handleResponse res errorMessage) \<longleftrightarrow> status res = 429"
    by (rule handleResponse_rate_limit)
next
  assume "status res \<noteq> 429 \<and> \<not> ok res \<and> body res = None"
  then show "handleResponse res errorMessage = Inl (Error (JStr errorMessage))"
    by (simp add: handleResponse_def get_detail_def js_or_def)
next
  fix v
  assume a: "status res \<noteq> 429 \<and> \<not> ok res \<and> body res = Some v \<and> v \<noteq> JNull"
  then obtain d where d: "get_detail v = Inr d" using get_detail_not_null by blast
  with a have "handleResponse res errorMessage =
      Inl (Error (case d of Some x \<Rightarrow> if truthy d then x else JStr errorMessage | None \<Rightarrow> JStr errorMessage))"
    by (simp add: handleResponse_def js_or_def)
  with d show "\<exists>d. get_detail v = Inr d \<and>
           handleResponse res errorMessage =
             Inl (Error (case d of Some x \<Rightarrow> if truthy d then x else JStr errorMessage
                         | None \<Rightarrow> JStr errorMessage))"
    by blast
next
  assume o: "ok res"
  then have "status res \<noteq> 429" by (rule ok_not_429)
  with o show "handleResponse res errorMessage = (case body res of Some v \<Rightarrow> Inr v | None \<Rightarrow> Inl SyntaxError)"
    by (simp add: handleResponse_def)
qed

text \<open>
  A 429, a 400 with a detail, a 502 whose body is an HTML page, and a 200 with its body.
\<close>

theorem handleResponse_cases_witness:
  "is_RateLimitError (handleResponse \<lparr>status = 429, body = None\<rparr> ''Failed to validate session'') \<and>
   handleResponse \<lparr>status = 400, body = Some (JObj [(''detail'', JStr ''No face detected'')])\<rparr> ''Preview failed''
     = Inl (Error (JStr ''No face detected'')) \<and>
   handleResponse \<lparr>status = 502, body = None\<rparr> ''Failed to create session''
     = Inl (Error (JStr ''Failed to create session'')) \<and>
   handleResponse \<lparr>status = 200, body = Some (JObj [(''session_id'', JStr ''abcd1234'')])\<rparr> ''Failed to create session''
     = Inr (JObj [(''session_id'', JStr ''abcd1234'')])"
proof -
  note a = handleResponse_cases [of "\<lparr>status = 429, body = None\<rparr>" "''Failed to validate session''"]
  note b = handleResponse_cases
    [of "\<lparr>status = 400, body = Some (JObj [(''detail'', JStr ''No face detected'')])\<rparr>" "''Preview failed''"]
  note c = handleResponse_cases [of "\<lparr>status = 502, body = None\<rparr>" "''Failed to create session''"]
  note d = handleResponse_cases
    [of "\<lparr>status = 200, body = Some (JObj [(''session_id'', JStr ''abcd1234'')])\<rparr>" "''Failed to create session''"]
  have 1: "is_RateLimitError (handleResponse \<lparr>status = 429, body = None\<rparr> ''Failed to validate session'')"
    using a by simp
  have "\<exists>d. get_detail (JObj [(''detail'', JStr ''No face detected'')]) = Inr d \<and>
      handleResponse \<lparr>status = 400, body = Some (JObj [(''detail'', JStr ''No face detected'')])\<rparr> ''Preview failed'' =
        Inl (Error (case d of Some x \<Rightarrow> if truthy d then x else JStr ''Preview failed''
                    | None \<Rightarrow> JStr ''Preview failed''))"
    using b [THEN conjunct2, THEN conjunct2, THEN conjunct1, THEN spec,
        of "JObj [(''detail'', JStr ''No face detected'')]"]
    by (simp add: ok_def)
  then have 2: "handleResponse \<lparr>status = 400, body = Some (JObj [(''detail'', JStr ''No face detected'')])\<rparr>
      ''Preview failed'' = Inl (Error (JStr ''No face detected''))"
    by (auto simp: get_detail_def truthy_def)
  have 3: "handleResponse \<lparr>status = 502, body = None\<rparr> ''Failed to create session''
     = Inl (Error (JStr ''Failed to create session''))"
    using c by (simp add: ok_def)
  have 4: "handleResponse \<lparr>status = 200, body = Some (JObj [(''session_id'', JStr ''abcd1234'')])\<rparr>
      ''Failed to create session'' = Inr (JObj [(''session_id'', JStr ''abcd1234'')])"
    using d by (simp add: ok_def)
  from 1 2 3 4 show ?thesis by (intro conjI)
qed


section \<open>Properties of the session cookie\<close>

lemma show_max_age: "show_nat COOKIE_MAX_AGE = ''604800''"
  by (simp add: show_nat.simps [of 604800] show_nat.simps [of 60480] show_nat.simps [of 6048]
        show_nat.simps [of 604] show_nat.simps [of 60] show_nat.simps [of 6]
        COOKIE_MAX_AGE_def digit_char_def)

lemma attrs_not_expired:
  "expires_at_once (split_on (CHR '';'') '' path=/; max-age=604800; SameSite=Lax'') = False"
  by (simp add: expires_at_once_def attr_name_def attr_value_def trim_wsp_def is_wsp_def to_lower_def
      max_age_valid_def max_age_expired_def is_digit_def)

lemma trim_wsp_id:
  assumes "s \<noteq> []" "\<not> is_wsp (hd s)" "\<not> is_wsp (last s)"
  shows "trim_wsp s = s"
proof -
  from assms(1,2) have a: "dropWhile is_wsp s = s" by (cases s) auto
  from assms(1,3) have "rev s \<noteq> []" "\<not> is_wsp (hd (rev s))" by (simp_all add: hd_rev)
  then have b: "dropWhile is_wsp (rev s) = rev s" by (cases "rev s") auto
  show ?thesis by (simp add: trim_wsp_def a b)
qed

lemma trim_name: "trim_wsp SESSION_COOKIE_NAME = SESSION_COOKIE_NAME"
  by (rule trim_wsp_id) (simp_all add: SESSION_COOKIE_NAME_def is_wsp_def)

text \<open>
  The browser reads the string that \<open>setSessionCookie\<close> assigns as the cookie
  \<open>tomoji_session\<close> with the session id as its value, not expired.
\<close>

lemma parse_session_string:
  assumes "sid \<noteq> []" "CHR '';'' \<notin> set sid" "\<not> list_ex is_ctl sid"
    "\<not> is_wsp (hd sid)" "\<not> is_wsp (last sid)"
  shows "parse_cookie_string
      (SESSION_COOKIE_NAME @ ''='' @ sid @ ''; path=/; max-age='' @ show_nat COOKIE_MAX_AGE @ ''; SameSite=Lax'')
    = Some ((SESSION_COOKIE_NAME, sid), False)"
proof -
  let ?semi = "\<lambda>c. c \<noteq> CHR '';''" and ?eq = "\<lambda>c. c \<noteq> CHR ''=''"
  let ?nv = "SESSION_COOKIE_NAME @ ''='' @ sid"
  let ?rest = "'' path=/; max-age=604800; SameSite=Lax''"
  have str: "SESSION_COOKIE_NAME @ ''='' @ sid @ ''; path=/; max-age='' @ show_nat COOKIE_MAX_AGE @ ''; SameSite=Lax''
     = ?nv @ CHR '';'' # ?rest"
    by (simp add: show_max_age)
  have ctl: "\<not> list_ex is_ctl (?nv @ CHR '';'' # ?rest)"
    using assms(3) by (simp add: SESSION_COOKIE_NAME_def is_ctl_def list_ex_iff)
  have all: "\<forall>c \<in> set ?nv. ?semi c"
    using assms(2) by (auto simp: SESSION_COOKIE_NAME_def)
  have nv: "takeWhile ?semi (?nv @ CHR '';'' # ?rest) = ?nv"
    using all by (simp add: takeWhile_tail)
  have rest: "dropWhile ?semi (?nv @ CHR '';'' # ?rest) = CHR '';'' # ?rest"
    using all by (simp add: dropWhile_append2)
  have name_all: "\<forall>c \<in> set SESSION_COOKIE_NAME. ?eq c"
    by (simp add: SESSION_COOKIE_NAME_def)
  have n: "takeWhile ?eq ?nv = SESSION_COOKIE_NAME"
    using name_all by (simp add: takeWhile_tail)
  have v: "drop 1 (dropWhile ?eq ?nv) = sid"
    using name_all by (simp add: dropWhile_append2)
  have has_eq: "CHR ''='' \<in> set ?nv" by simp
  have ne: "SESSION_COOKIE_NAME \<noteq> []" by (simp add: SESSION_COOKIE_NAME_def)
  have attrs: "expires_at_once (split_on (CHR '';'') (drop 1 (CHR '';'' # ?rest))) = False"
    using attrs_not_expired by simp
  show ?thesis
    unfolding str parse_cookie_string_def Let_def nv rest n v attrs
    using has_eq ne ctl
    by (simp only: trim_name trim_wsp_id [OF assms(1,4,5)] if_False if_True simp_thms)
qed

lemma setSessionCookie_stored:
  assumes "sid \<noteq> []" "CHR '';'' \<notin> set sid" "\<not> list_ex is_ctl sid"
    "\<not> is_wsp (hd sid)" "\<not> is_wsp (last sid)"
  shows "setSessionCookie (Serves before after) sid jar = before @ (SESSION_COOKIE_NAME, sid) # after"
    and "setSessionCookie Refuses sid jar = jar"
  unfolding setSessionCookie_def document_cookie_set_def parse_session_string [OF assms]
  by simp_all

text \<open>A control character in the session id makes the browser ignore the assignment.\<close>

lemma setSessionCookie_ignored:
  assumes "list_ex is_ctl sid"
  shows "setSessionCookie answer sid jar = jar"
proof -
  let ?s = "SESSION_COOKIE_NAME @ ''='' @ sid @ ''; path=/; max-age='' @ show_nat COOKIE_MAX_AGE @ ''; SameSite=Lax''"
  from assms have "list_ex is_ctl ?s" by (auto simp: list_ex_iff)
  then have "parse_cookie_string ?s = None" by (simp only: parse_cookie_string_def if_True)
  then show ?thesis by (simp only: setSessionCookie_def document_cookie_set_def option.case)
qed

text \<open>The match of the pattern at a position does not look beyond the next semicolon.\<close>

lemma match_rest_semicolon: "match_rest (t @ CHR '';'' # r) = match_rest t"
proof -
  let ?p = "SESSION_COOKIE_NAME @ ''=''"
  have semi: "CHR '';'' \<notin> set ?p" by (simp add: SESSION_COOKIE_NAME_def)
  have pre: "prefix ?p (t @ CHR '';'' # r) \<longleftrightarrow> prefix ?p t"
  proof
    assume "prefix ?p (t @ CHR '';'' # r)"
    then consider "prefix ?p t" | us where "?p = t @ us" "prefix us (CHR '';'' # r)"
      by (auto simp: prefix_append)
    then show "prefix ?p t"
    proof cases
      case 1
      then show ?thesis .
    next
      case 2
      show ?thesis
      proof (cases us)
        case Nil
        with 2 show ?thesis by simp
      next
        case (Cons u us')
        with 2(2) have "u = CHR '';''" by simp
        with 2(1) Cons have "CHR '';'' \<in> set ?p" by simp
        with semi show ?thesis by contradiction
      qed
    qed
  next
    assume "prefix ?p t"
    then show "prefix ?p (t @ CHR '';'' # r)" by (rule prefix_prefix)
  qed
  show ?thesis
  proof (cases "prefix ?p t")
    case True
    then obtain u where u: "t = ?p @ u" by (auto simp: prefix_def)
    have "takeWhile (\<lambda>c. c \<noteq> CHR '';'') (u @ CHR '';'' # r) = takeWhile (\<lambda>c. c \<noteq> CHR '';'') u"
      by (simp add: takeWhile_tail)
    then have "takeWhile (\<lambda>c. c \<noteq> CHR '';'') (drop (length ?p) (t @ CHR '';'' # r)) =
        takeWhile (\<lambda>c. c \<noteq> CHR '';'') (drop (length ?p) t)"
      using u by simp
    with True pre show ?thesis by (simp only: match_rest_def Let_def if_True)
  next
    case False
    with pre show ?thesis by (simp only: match_rest_def if_False)
  qed
qed

lemma match_rest_Nil: "match_rest [] = None"
  by (simp add: match_rest_def SESSION_COOKIE_NAME_def)

lemma regex_search_start:
  "regex_search True s = (case match_rest s of Some v \<Rightarrow> Some v | None \<Rightarrow> regex_search False s)"
proof (cases s)
  case Nil
  then show ?thesis by (simp add: match_rest_Nil)
next
  case (Cons c cs)
  then show ?thesis by (simp split: option.splits)
qed

text \<open>
  A search through a text followed by a separator and more text: the match in the text, if
  there is one, and otherwise the search of what follows, from its start.
\<close>

lemma regex_search_separator:
  "regex_search b (t @ ''; '' @ r) =
     (case regex_search b t of Some v \<Rightarrow> Some v | None \<Rightarrow> regex_search True r)"
proof (induction t arbitrary: b)
  case Nil
  have "match_rest (CHR '';'' # CHR '' '' # r) = None"
    using match_rest_semicolon [of "[]" "CHR '' '' # r"] by (simp add: match_rest_Nil)
  then show ?case by (simp add: regex_search_start split: option.splits)
next
  case (Cons c t)
  have m1: "match_rest (c # t @ CHR '';'' # CHR '' '' # r) = match_rest (c # t)"
    using match_rest_semicolon [of "c # t" "CHR '' '' # r"] by simp
  have m2: "match_rest (t @ CHR '';'' # CHR '' '' # r) = match_rest t"
    using match_rest_semicolon [of t "CHR '' '' # r"] by simp
  have ih: "regex_search False (t @ CHR '';'' # CHR '' '' # r) =
      (case regex_search False t of Some v \<Rightarrow> Some v | None \<Rightarrow> regex_search True r)"
    using Cons.IH [of False] by simp
  show ?case by (simp add: m1 m2 ih split: option.splits)
qed

lemma join_texts_Cons: "ts \<noteq> [] \<Longrightarrow> join_texts (t # ts) = t @ ''; '' @ join_texts ts"
  by (cases ts) auto

text \<open>The search of what the document reads is the first match among the cookies served.\<close>

lemma regex_search_join: "regex_search True (join_texts ts) = first_match ts"
proof (induction ts)
  case Nil
  show ?case by simp
next
  case (Cons t ts)
  show ?case
  proof (cases ts)
    case Nil
    then show ?thesis by (simp split: option.splits)
  next
    case (Cons u us)
    then have "join_texts (t # ts) = t @ ''; '' @ join_texts ts" by (simp add: join_texts_Cons)
    then show ?thesis
      using Cons.IH by (simp only: regex_search_separator first_match.simps)
  qed
qed

lemma getSessionCookie_first_match: "getSessionCookie jar = first_match (map cookie_text jar)"
  by (simp add: getSessionCookie_def document_cookie_get_def regex_search_join)

lemma first_match_append:
  "first_match (xs @ ys) = (case first_match xs of Some v \<Rightarrow> Some v | None \<Rightarrow> first_match ys)"
  by (induction xs) (auto split: option.splits)

lemma first_match_none: "\<forall>t \<in> set ts. regex_search True t = None \<Longrightarrow> first_match ts = None"
  by (induction ts) auto

lemma regex_search_own:
  assumes "sid \<noteq> []" "CHR '';'' \<notin> set sid"
  shows "regex_search True (cookie_text (SESSION_COOKIE_NAME, sid)) = Some sid"
proof -
  have tw: "takeWhile (\<lambda>c. c \<noteq> CHR '';'') sid = sid" using assms(2) by auto
  have "match_rest (SESSION_COOKIE_NAME @ ''='' @ sid) = Some sid"
    using assms(1) by (simp add: match_rest_def SESSION_COOKIE_NAME_def Let_def tw)
  then show ?thesis
    by (simp add: regex_search_start cookie_text_def SESSION_COOKIE_NAME_def)
qed

text \<open>
  Claim C10, as stated, fails in three ways; each session id below is non-empty, has no
  semicolon, and is left as it is by \<^verbatim>\<open>trim\<close>. The document already has a cookie whose
  value contains a space followed by \<^verbatim>\<open>tomoji_session=\<close>: the regular expression finds
  that text first. The document has an older cookie of the same name on a longer path,
  which the browser keeps and serves first: its value is read. The session id contains a
  line feed: the browser ignores the assignment and nothing is read.
\<close>

theorem session_cookie_shadowed:
  "js_trim ''abcd1234'' = ''abcd1234'' \<and> CHR '';'' \<notin> set ''abcd1234'' \<and>
   document_cookie_get (setSessionCookie (Serves [(''theme'', ''dark tomoji_session=evil'')] []) ''abcd1234'' []) =
     ''theme=dark tomoji_session=evil; tomoji_session=abcd1234'' \<and>
   getSessionCookie (setSessionCookie (Serves [(''theme'', ''dark tomoji_session=evil'')] []) ''abcd1234'' []) =
     Some ''evil'' \<and>
   document_cookie_get (setSessionCookie (Serves [(''tomoji_session'', ''old'')] []) ''abcd1234'' []) =
     ''tomoji_session=old; tomoji_session=abcd1234'' \<and>
   getSessionCookie (setSessionCookie (Serves [(''tomoji_session'', ''old'')] []) ''abcd1234'' []) = Some ''old'' \<and>
   js_trim [CHR ''a'', CHR ''b'', CHR 0x0A, CHR ''c'', CHR ''d''] = [CHR ''a'', CHR ''b'', CHR 0x0A, CHR ''c'', CHR ''d''] \<and>
   CHR '';'' \<notin> set [CHR ''a'', CHR ''b'', CHR 0x0A, CHR ''c'', CHR ''d''] \<and>
   getSessionCookie (setSessionCookie (Serves [] []) [CHR ''a'', CHR ''b'', CHR 0x0A, CHR ''c'', CHR ''d''] []) = None"
proof -
  have a: "''abcd1234'' \<noteq> []" "CHR '';'' \<notin> set ''abcd1234''" "\<not> list_ex is_ctl ''abcd1234''"
    "\<not> is_wsp (hd ''abcd1234'')" "\<not> is_wsp (last ''abcd1234'')"
    by (simp_all add: is_wsp_def is_ctl_def)
  have s1: "strip_start js_white_space ''abcd1234'' = ''abcd1234''"
    by (subst strip_start.simps) (simp add: js_white_space_def)
  have s2: "strip_start (map rev js_white_space) (rev ''abcd1234'') = rev ''abcd1234''"
    by (subst strip_start.simps) (simp add: js_white_space_def)
  have t: "js_trim ''abcd1234'' = ''abcd1234''"
    unfolding js_trim_def s1 s2 by simp
  note st = setSessionCookie_stored(1) [OF a]
  have g1: "document_cookie_get (setSessionCookie (Serves [(''theme'', ''dark tomoji_session=evil'')] []) ''abcd1234'' []) =
     ''theme=dark tomoji_session=evil; tomoji_session=abcd1234''"
    by (simp add: st document_cookie_get_def cookie_text_def SESSION_COOKIE_NAME_def)
  have g2: "document_cookie_get (setSessionCookie (Serves [(''tomoji_session'', ''old'')] []) ''abcd1234'' []) =
     ''tomoji_session=old; tomoji_session=abcd1234''"
    by (simp add: st document_cookie_get_def cookie_text_def SESSION_COOKIE_NAME_def)
  have r1: "getSessionCookie (setSessionCookie (Serves [(''theme'', ''dark tomoji_session=evil'')] []) ''abcd1234'' []) =
     Some ''evil''"
    unfolding getSessionCookie_def g1 by (simp add: match_rest_def SESSION_COOKIE_NAME_def)
  have r2: "getSessionCookie (setSessionCookie (Serves [(''tomoji_session'', ''old'')] []) ''abcd1234'' []) =
     Some ''old''"
    unfolding getSessionCookie_def g2 by (simp add: match_rest_def SESSION_COOKIE_NAME_def)
  let ?lf = "[CHR ''a'', CHR ''b'', CHR 0x0A, CHR ''c'', CHR ''d'']"
  have l1: "strip_start js_white_space ?lf = ?lf"
    by (subst strip_start.simps) (simp add: js_white_space_def)
  have l2: "strip_start (map rev js_white_space) (rev ?lf) = rev ?lf"
    by (subst strip_start.simps) (simp add: js_white_space_def)
  have tl: "js_trim ?lf = ?lf"
    unfolding js_trim_def l1 l2 by simp
  have semi: "CHR '';'' \<notin> set ?lf" by simp
  have "list_ex is_ctl ?lf" by (simp add: is_ctl_def)
  then have "setSessionCookie (Serves [] []) ?lf [] = []" by (rule setSessionCookie_ignored)
  then have r3: "getSessionCookie (setSessionCookie (Serves [] []) ?lf []) = None"
    by (simp add: getSessionCookie_def document_cookie_get_def)
  from t a(2) g1 r1 g2 r2 tl semi r3 show ?thesis by (intro conjI)
qed

text \<open>
  Claim C10, amended. Let the session id be non-empty, with no semicolon, no control
  character and no leading or trailing space or tab. When the browser stores the cookie,
  \<open>getSessionCookie\<close> right after \<open>setSessionCookie\<close> returns the first match of the
  pattern among the cookies served to the document: the match in a cookie served before
  the session cookie if there is one, and the session id otherwise. So it returns
  exactly the id when no cookie served before the session cookie has a text in which the
  pattern matches. When the browser refuses the cookie, the read is what it was before
  the assignment.
\<close>

theorem session_cookie_round_trip:
  assumes "sid \<noteq> []" and "CHR '';'' \<notin> set sid" and "\<not> list_ex is_ctl sid"
    and "\<not> is_wsp (hd sid)" and "\<not> is_wsp (last sid)"
  shows "setSessionCookie (Serves before after) sid jar = before @ (SESSION_COOKIE_NAME, sid) # after \<and>
         getSessionCookie (setSessionCookie (Serves before after) sid jar) =
           (case first_match (map cookie_text before) of Some m \<Rightarrow> Some m | None \<Rightarrow> Some sid) \<and>
         ((\<forall>c \<in> set before. regex_search True (cookie_text c) = None) \<longrightarrow>
            getSessionCookie (setSessionCookie (Serves before after) sid jar) = Some sid) \<and>
         getSessionCookie (setSessionCookie Refuses sid jar) = getSessionCookie jar"
proof -
  note st = setSessionCookie_stored [OF assms]
  have own: "regex_search True (cookie_text (SESSION_COOKIE_NAME, sid)) = Some sid"
    using assms(1,2) by (rule regex_search_own)
  have get: "getSessionCookie (setSessionCookie (Serves before after) sid jar) =
      (case first_match (map cookie_text before) of Some m \<Rightarrow> Some m | None \<Rightarrow> Some sid)"
  proof -
    have "first_match (cookie_text (SESSION_COOKIE_NAME, sid) # map cookie_text after) = Some sid"
      by (simp only: first_match.simps own option.case)
    then show ?thesis
      by (simp add: st getSessionCookie_first_match first_match_append split: option.splits)
  qed
  have clean: "getSessionCookie (setSessionCookie (Serves before after) sid jar) = Some sid"
    if "\<forall>c \<in> set before. regex_search True (cookie_text c) = None"
  proof -
    from that have "first_match (map cookie_text before) = None"
      by (intro first_match_none) auto
    with get show ?thesis by simp
  qed
  from st(1) [of before after jar] get clean st(2) [of jar] show ?thesis by simp
qed

text \<open>
  A returning visitor: a cookie with a space in its value and a nameless cookie are
  served before the session cookie, which replaces an older one, and another after it.
\<close>

theorem session_cookie_round_trip_witness:
  "getSessionCookie (setSessionCookie (Serves [(''pref'', ''dark mode''), ([], ''plain'')] [(''lang'', ''en'')])
      ''abcd1234'' [(''pref'', ''dark mode''), ([], ''plain''), (''tomoji_session'', ''old''), (''lang'', ''en'')])
     = Some ''abcd1234''"
proof -
  have a: "''abcd1234'' \<noteq> []" "CHR '';'' \<notin> set ''abcd1234''" "\<not> list_ex is_ctl ''abcd1234''"
    "\<not> is_wsp (hd ''abcd1234'')" "\<not> is_wsp (last ''abcd1234'')"
    by (simp_all add: is_wsp_def is_ctl_def)
  have b: "\<forall>c \<in> set [(''pref'', ''dark mode''), ([], ''plain'')]. regex_search True (cookie_text c) = None"
    by (simp add: cookie_text_def match_rest_def SESSION_COOKIE_NAME_def)
  from session_cookie_round_trip [OF a, of "[(''pref'', ''dark mode''), ([], ''plain'')]" "[(''lang'', ''en'')]"
      "[(''pref'', ''dark mode''), ([], ''plain''), (''tomoji_session'', ''old''), (''lang'', ''en'')]"] b
  show ?thesis by blast
qed

section \<open>Properties of font assembly\<close>

lemma assign_indices_length: "length (assign_indices i es) = length es"
  by (induction es arbitrary: i) auto

lemma assign_indices_nth: "k < length es \<Longrightarrow> assign_indices i es ! k = (i + k, es ! k)"
proof (induction es arbitrary: i k)
  case Nil
  then show ?case by simp
next
  case (Cons e es)
  then show ?case by (cases k) auto
qed

lemma assign_indices_names:
  "map (\<lambda>(i, g, b). glyph_name g) (assign_indices i es) = map (\<lambda>e. glyph_name (fst e)) es"
  by (induction es arbitrary: i) auto

text \<open>
  Claim C7 (on the model of the assembler written from the specification). In every
  font that \<open>assemble\<close> returns, glyph index 0 is the reserved ".notdef" glyph, with no
  bitmap, and the entry at position \<open>k\<close> of the input has glyph index \<open>k + 1\<close>: its name
  and bitmap stand at that index and the character map sends its lead scalar there. An
  export lists the standard glyphs in registry order, then the custom glyphs in
  insertion order.
\<close>

theorem assemble_glyph_indices:
  assumes "assemble entries = Inr font"
  shows "glyph_order font ! 0 = ''.notdef'' \<and> glyph_bitmaps font ! 0 = None \<and>
         length (glyph_order font) = Suc (length entries) \<and>
         (\<forall>k < length entries.
            glyph_order font ! Suc k = glyph_name (fst (entries ! k)) \<and>
            glyph_bitmaps font ! Suc k = Some (snd (entries ! k)) \<and>
            cmap font ! k = (lead_scalar (fst (entries ! k)), Suc k)) \<and>
         (export_font registry store = Inr font' \<longrightarrow>
            glyph_order font' = ''.notdef'' #
              map glyph_name (filter (\<lambda>g. standard_captures store (hex_key g) \<noteq> None) registry) @
              map (\<lambda>e. glyph_name (fst e)) (custom_captures store))"
proof -
  from assms have font: "font = \<lparr>glyph_order = ''.notdef'' # map (\<lambda>(i, g, b). glyph_name g) (assign_indices 1 entries),
      glyph_bitmaps = None # map (\<lambda>(i, g, b). Some b) (assign_indices 1 entries),
      cmap = map (\<lambda>(i, g, b). (lead_scalar g, i)) (assign_indices 1 entries)\<rparr>"
    by (simp add: assemble_def Let_def split: if_splits option.splits)
  have zero: "glyph_order font ! 0 = ''.notdef''" "glyph_bitmaps font ! 0 = None"
    "length (glyph_order font) = Suc (length entries)"
    by (simp_all add: font assign_indices_length)
  have each: "\<forall>k < length entries.
      glyph_order font ! Suc k = glyph_name (fst (entries ! k)) \<and>
      glyph_bitmaps font ! Suc k = Some (snd (entries ! k)) \<and>
      cmap font ! k = (lead_scalar (fst (entries ! k)), Suc k)"
    by (auto simp: font assign_indices_length assign_indices_nth split: prod.splits)
  have order: "export_font registry store = Inr font' \<longrightarrow>
      glyph_order font' = ''.notdef'' #
        map glyph_name (filter (\<lambda>g. standard_captures store (hex_key g) \<noteq> None) registry) @
        map (\<lambda>e. glyph_name (fst e)) (custom_captures store)"
  proof
    assume "export_font registry store = Inr font'"
    then have "glyph_order font' = ''.notdef'' # map (\<lambda>e. glyph_name (fst e)) (list_captures registry store)"
      by (auto simp: export_font_def assemble_def Let_def assign_indices_names split: if_splits option.splits)
    moreover have "map (\<lambda>e. glyph_name (fst e))
        (List.map_filter (\<lambda>g. map_option (\<lambda>b. (g, b)) (standard_captures store (hex_key g))) registry) =
        map glyph_name (filter (\<lambda>g. standard_captures store (hex_key g) \<noteq> None) registry)"
      by (induction registry) (auto simp: List.map_filter_simps split: option.splits)
    ultimately show "glyph_order font' = ''.notdef'' #
        map glyph_name (filter (\<lambda>g. standard_captures store (hex_key g) \<noteq> None) registry) @
        map (\<lambda>e. glyph_name (fst e)) (custom_captures store)"
      by (simp add: list_captures_def)
  qed
  from zero each order show ?thesis by (intro conjI)
qed

text \<open>
  The end-to-end scenario of the specification with one custom glyph added: captures
  for 1f600 and 1f603 and a custom rocket give a font of four glyphs, ".notdef" first.
\<close>

theorem assemble_glyph_indices_witness:
  "(\<exists>font. assemble [(g_grinning, tiny_bitmap), (g_smiley, tiny_bitmap), (g_rocket, tiny_bitmap)] = Inr font \<and>
      glyph_order font = [''.notdef'', ''grinning'', ''smiley'', ''rocket''] \<and>
      cmap font = [(0x1F600, 1), (0x1F603, 2), (0x1F680, 3)]) \<and>
   assemble [] = Inl EmptyCaptureSet"
proof -
  let ?es = "[(g_grinning, tiny_bitmap), (g_smiley, tiny_bitmap), (g_rocket, tiny_bitmap)]"
  let ?font = "\<lparr>glyph_order = [''.notdef'', ''grinning'', ''smiley'', ''rocket''],
      glyph_bitmaps = [None, Some tiny_bitmap, Some tiny_bitmap, Some tiny_bitmap],
      cmap = [(0x1F600, 1), (0x1F603, 2), (0x1F680, 3)]\<rparr>"
  have v: "valid_bitmap tiny_bitmap" by (simp add: valid_bitmap_def tiny_bitmap_def)
  have run: "assemble ?es = Inr ?font"
    using v by (simp add: assemble_def Let_def g_grinning_def g_smiley_def g_rocket_def)
  from assemble_glyph_indices [OF run]
  have "glyph_order ?font ! 0 = ''.notdef''" by blast
  with run have "\<exists>font. assemble ?es = Inr font \<and>
      glyph_order font = [''.notdef'', ''grinning'', ''smiley'', ''rocket''] \<and>
      cmap font = [(0x1F600, 1), (0x1F603, 2), (0x1F680, 3)]"
    by simp
  moreover have "assemble [] = Inl EmptyCaptureSet" by (simp add: assemble_def)
  ultimately show ?thesis by (rule conjI)
qed

end
